theory Spec2Isabelle
  imports Main "HOL-Library.Word"
begin

section \<open>The blueprint decoder of \<open>vcbblueprint.py\<close>\<close>

text \<open>
  The module decodes a Visual Circuit Board blueprint string: the identifier \<open>VCB+\<close>,
  then base64 text holding a 17-byte header and a sequence of Zstandard-compressed
  blocks, one per layer. The functions below follow \<open>vcbblueprint.py\<close> one by one.
  A leading underscore of a Python name is dropped (\<open>_readint\<close> is \<open>readint\<close>).

  Python integers are unbounded, so the integers the code computes with are \<open>nat\<close>
  and \<open>int\<close>; a byte is an \<open>8 word\<close>. A \<open>str\<close> is a \<open>string\<close>.
\<close>

type_synonym byte = "8 word"

subsection \<open>Exceptions\<close>

text \<open>
  One constructor for each place where the code, or a library function it calls, raises:
  \<^item> \<open>ValueError_too_short\<close>: \<open>ValueError("Blueprint string is too short.")\<close>;
  \<^item> \<open>ValueError_identifier i\<close>: \<open>ValueError("Invalid blueprint identifier. ...")\<close>,
    with the identifier found;
  \<^item> \<open>b64decode_Error\<close>: the exception of \<open>base64.b64decode\<close>;
  \<^item> \<open>struct_error\<close>: \<open>struct.error\<close>, raised by \<open>struct.unpack(">I", ...)\<close> on a
    buffer that is not 4 bytes long;
  \<^item> \<open>zstd_Error\<close>: the exception of \<open>zstd.decompress\<close>;
  \<^item> \<open>ValueError_size_mismatch expected got\<close>: \<open>ValueError("Decompressed data size
    does not match the expected size. ...")\<close> of \<open>_read_block\<close>, with the two numbers
    of its message;
  \<^item> \<open>ValueError_reshape n shape\<close>: the \<open>ValueError\<close> of numpy's \<open>reshape\<close> for an
    array of \<open>n\<close> elements and a shape of another size.
\<close>

datatype error =
    ValueError_too_short
  | ValueError_identifier string
  | b64decode_Error
  | struct_error
  | zstd_Error
  | ValueError_size_mismatch nat nat
  | ValueError_reshape nat "nat \<times> nat \<times> nat"

text \<open>
  The error taxonomy of the specification (section 7), as a classification of the
  exceptions by what raised them.
\<close>

datatype error_kind = FormatError | TruncatedInputError | DecompressionError | SizeMismatchError

fun kind :: "error \<Rightarrow> error_kind" where
  "kind ValueError_too_short = FormatError"
| "kind (ValueError_identifier i) = FormatError"
| "kind b64decode_Error = FormatError"
| "kind struct_error = TruncatedInputError"
| "kind zstd_Error = DecompressionError"
| "kind (ValueError_size_mismatch expected got) = SizeMismatchError"
| "kind (ValueError_reshape n shape) = SizeMismatchError"

subsection \<open>\<open>io.BytesIO\<close>\<close>

text \<open>
  A \<open>BytesIO\<close> is its bytes and its position. \<open>read n\<close> returns the bytes from the
  position on, at most \<open>n\<close> of them, all of them when \<open>n\<close> is negative, and moves
  the position past what it returned: a read near the end is short, it does not raise.
\<close>

record BytesIO =
  getvalue :: "byte list"
  pos :: nat

definition BytesIO_new :: "byte list \<Rightarrow> BytesIO" where
  "BytesIO_new initial_bytes = \<lparr>getvalue = initial_bytes, pos = 0\<rparr>"

definition tell :: "BytesIO \<Rightarrow> nat" where
  "tell buf = pos buf"

definition read :: "int \<Rightarrow> BytesIO \<Rightarrow> byte list \<times> BytesIO" where
  "read n buf =
     (let rest = drop (pos buf) (getvalue buf);
          out = (if n < 0 then rest else take (nat n) rest)
      in (out, buf\<lparr>pos := pos buf + length out\<rparr>))"

subsection \<open>\<open>_readint\<close>\<close>

text \<open>\<open>struct.unpack(">I", bs)[0]\<close>: the big-endian value of exactly 4 bytes.\<close>

fun unpack_I :: "byte list \<Rightarrow> error + nat" where
  "unpack_I [b0, b1, b2, b3] =
     Inr (((unat b0 * 256 + unat b1) * 256 + unat b2) * 256 + unat b3)"
| "unpack_I bs = Inl struct_error"

definition readint :: "BytesIO \<Rightarrow> error + nat \<times> BytesIO" where
  "readint buf =
     (case read 4 buf of (bs, buf') \<Rightarrow>
        (case unpack_I bs of Inl e \<Rightarrow> Inl e | Inr n \<Rightarrow> Inr (n, buf')))"

subsection \<open>\<open>_read_header\<close>\<close>

text \<open>
  The version is \<open>tuple(buf.read(3))\<close>, a tuple of the integers of the bytes read; the
  checksum is the next 6 bytes. Neither read raises when it is short.
\<close>

definition read_header ::
  "BytesIO \<Rightarrow> error + (nat list \<times> byte list \<times> nat \<times> nat) \<times> BytesIO" where
  "read_header buf =
     (case read 3 buf of (v, buf1) \<Rightarrow>
      let version = map unat v in
      (case read 6 buf1 of (checksum, buf2) \<Rightarrow>
       (case readint buf2 of Inl e \<Rightarrow> Inl e
        | Inr (width, buf3) \<Rightarrow>
          (case readint buf3 of Inl e \<Rightarrow> Inl e
           | Inr (height, buf4) \<Rightarrow> Inr ((version, checksum, width, height), buf4)))))"

subsection \<open>\<open>_read_block\<close>\<close>

text \<open>
  \<open>zstd.decompress\<close> is a function of the \<open>zstd\<close> package, not of this module: the
  model takes it as the parameter \<open>decompress\<close>, which returns \<open>None\<close> where the library
  raises. The number of bytes asked for, \<open>block_size - 12\<close>, is a Python integer and is
  negative for a block size below 12. The message of the size error prints the expected
  size and \<open>len(compressed_data)\<close>.
\<close>

definition read_block ::
  "(byte list \<Rightarrow> byte list option) \<Rightarrow> BytesIO \<Rightarrow> error + (nat \<times> byte list) \<times> BytesIO" where
  "read_block decompress buf =
     (case readint buf of Inl e \<Rightarrow> Inl e
      | Inr (block_size, buf1) \<Rightarrow>
        (case readint buf1 of Inl e \<Rightarrow> Inl e
         | Inr (layer_id, buf2) \<Rightarrow>
           (case readint buf2 of Inl e \<Rightarrow> Inl e
            | Inr (buffer_size, buf3) \<Rightarrow>
              (case read (int block_size - 12) buf3 of (compressed_data, buf4) \<Rightarrow>
                 (case decompress compressed_data of None \<Rightarrow> Inl zstd_Error
                  | Some uncompressed_data \<Rightarrow>
                      if length uncompressed_data \<noteq> buffer_size
                      then Inl (ValueError_size_mismatch buffer_size (length compressed_data))
                      else Inr ((layer_id, uncompressed_data), buf4))))))"

subsection \<open>The numpy array of a layer\<close>

text \<open>
  \<open>np.frombuffer(data, dtype=np.uint8).reshape((height, width, 4))\<close>: an array is its
  shape and its elements in row-major (C) order, which is the order of the buffer.
  \<open>reshape\<close> raises \<open>ValueError\<close> unless the number of elements is the product of the
  shape. \<open>item a (i, j, k)\<close> is \<open>a[i, j, k]\<close> and \<open>tolist a\<close> is \<open>a.tolist()\<close>.
\<close>

record ndarray =
  shape :: "nat \<times> nat \<times> nat"
  flat :: "byte list"

definition frombuffer_reshape :: "byte list \<Rightarrow> nat \<times> nat \<times> nat \<Rightarrow> error + ndarray" where
  "frombuffer_reshape buffer newshape =
     (case newshape of (d0, d1, d2) \<Rightarrow>
        if length buffer = d0 * d1 * d2 then Inr \<lparr>shape = newshape, flat = buffer\<rparr>
        else Inl (ValueError_reshape (length buffer) newshape))"

definition item :: "ndarray \<Rightarrow> nat \<times> nat \<times> nat \<Rightarrow> byte" where
  "item a idx =
     (case shape a of (d0, d1, d2) \<Rightarrow>
      case idx of (i, j, k) \<Rightarrow> flat a ! ((i * d1 + j) * d2 + k))"

definition tolist :: "ndarray \<Rightarrow> byte list list list" where
  "tolist a =
     (case shape a of (d0, d1, d2) \<Rightarrow>
        map (\<lambda>i. map (\<lambda>j. map (\<lambda>k. item a (i, j, k)) [0..<d2]) [0..<d1]) [0..<d0])"

subsection \<open>Facts about reading\<close>

text \<open>The big-endian unsigned 32-bit integer at offset \<open>i\<close> of a byte string.\<close>

definition be32 :: "byte list \<Rightarrow> nat \<Rightarrow> nat" where
  "be32 bs i =
     ((unat (bs ! i) * 256 + unat (bs ! (i + 1))) * 256 + unat (bs ! (i + 2))) * 256
       + unat (bs ! (i + 3))"

lemma read_getvalue: "getvalue (snd (read n buf)) = getvalue buf"
  by (simp add: read_def Let_def)

lemma read_nonneg:
  "0 \<le> n \<Longrightarrow> read n buf =
     (take (nat n) (drop (pos buf) (getvalue buf)),
      buf\<lparr>pos := pos buf + min (nat n) (length (getvalue buf) - pos buf)\<rparr>)"
  by (simp add: read_def Let_def min_def)

lemma unpack_I_Inr: "unpack_I bs = Inr n \<Longrightarrow> length bs = 4"
  by (induction bs rule: unpack_I.induct) simp_all

lemma unpack_I_length: "length bs = 4 \<Longrightarrow> \<exists>n. unpack_I bs = Inr n"
  by (induction bs rule: unpack_I.induct) simp_all

lemma unpack_I_short: "length bs \<noteq> 4 \<Longrightarrow> unpack_I bs = Inl struct_error"
  by (induction bs rule: unpack_I.induct) simp_all

lemma readint_short:
  "length (getvalue buf) - pos buf < 4 \<Longrightarrow> readint buf = Inl struct_error"
  by (simp add: readint_def read_nonneg unpack_I_short)

lemma take4_drop:
  assumes "i + 4 \<le> length bs"
  shows "take 4 (drop i bs) = [bs ! i, bs ! (i + 1), bs ! (i + 2), bs ! (i + 3)]"
proof (rule nth_equalityI)
  show "length (take 4 (drop i bs)) = length [bs ! i, bs ! (i + 1), bs ! (i + 2), bs ! (i + 3)]"
    using assms by simp
next
  fix k assume "k < length (take 4 (drop i bs))"
  then have "k < 4" by simp
  then consider "k = 0" | "k = 1" | "k = 2" | "k = 3" by linarith
  then show "take 4 (drop i bs) ! k = [bs ! i, bs ! (i + 1), bs ! (i + 2), bs ! (i + 3)] ! k"
    using assms by cases (simp_all add: numeral_3_eq_3 numeral_2_eq_2)
qed

lemma unpack_I_be32:
  "i + 4 \<le> length bs \<Longrightarrow> unpack_I (take 4 (drop i bs)) = Inr (be32 bs i)"
  by (simp add: take4_drop be32_def)

lemma readint_ok:
  assumes "pos buf + 4 \<le> length (getvalue buf)"
  shows "readint buf = Inr (be32 (getvalue buf) (pos buf), buf\<lparr>pos := pos buf + 4\<rparr>)"
proof -
  have "min 4 (length (getvalue buf) - pos buf) = 4"
    using assms by simp
  then show ?thesis
    using unpack_I_be32 [OF assms] by (simp add: readint_def read_nonneg)
qed

lemma readint_Inr:
  assumes "readint buf = Inr (n, buf')"
  shows "pos buf + 4 \<le> length (getvalue buf) \<and> buf' = buf\<lparr>pos := pos buf + 4\<rparr>"
proof -
  have "\<not> length (getvalue buf) - pos buf < 4"
    using assms readint_short by fastforce
  then have le: "pos buf + 4 \<le> length (getvalue buf)" by simp
  from readint_ok [OF le] assms show ?thesis using le by simp
qed

lemma read_pos: "pos buf \<le> pos (snd (read n buf))"
  by (simp add: read_def Let_def)

lemma read_block_Inr:
  assumes "read_block decompress buf = Inr (r, buf')"
  shows "pos buf + 12 \<le> pos buf'" and "getvalue buf' = getvalue buf"
proof -
  from assms obtain block_size buf1 where r1: "readint buf = Inr (block_size, buf1)"
    by (auto simp: read_block_def split: sum.splits)
  from assms r1 obtain layer_id buf2 where r2: "readint buf1 = Inr (layer_id, buf2)"
    by (auto simp: read_block_def split: sum.splits)
  from assms r1 r2 obtain buffer_size buf3 where r3: "readint buf2 = Inr (buffer_size, buf3)"
    by (auto simp: read_block_def split: sum.splits)
  from assms r1 r2 r3 have b': "buf' = snd (read (int block_size - 12) buf3)"
    by (auto simp: read_block_def split: prod.splits option.splits if_splits)
  have b3: "buf3 = buf\<lparr>pos := pos buf + 12\<rparr>"
    using readint_Inr [OF r1] readint_Inr [OF r2] readint_Inr [OF r3] by simp
  show "pos buf + 12 \<le> pos buf'"
    using read_pos [of buf3 "int block_size - 12"] b' b3 by simp
  show "getvalue buf' = getvalue buf"
    using b' b3 by (simp add: read_getvalue)
qed

subsection \<open>\<open>read_blueprint\<close>\<close>

text \<open>
  The loop of \<open>read_blueprint\<close>, \<open>while buf.tell() < len(decoded_string)\<close>, with the
  dictionary \<open>layers\<close> as a map. Each turn that does not raise moves the position by
  the 12 bytes of the three integers at least, so the loop ends.
\<close>

function read_blocks ::
  "(byte list \<Rightarrow> byte list option) \<Rightarrow> byte list \<Rightarrow> nat \<Rightarrow> nat \<Rightarrow> BytesIO
     \<Rightarrow> (nat \<rightharpoonup> ndarray) \<Rightarrow> error + (nat \<rightharpoonup> ndarray)" where
  "read_blocks decompress decoded_string width height buf layers =
     (if tell buf < length decoded_string then
        (case read_block decompress buf of Inl e \<Rightarrow> Inl e
         | Inr ((layer_id, uncompressed_data), buf') \<Rightarrow>
           (case frombuffer_reshape uncompressed_data (height, width, 4) of Inl e \<Rightarrow> Inl e
            | Inr rgba \<Rightarrow>
                read_blocks decompress decoded_string width height buf'
                  (layers(layer_id \<mapsto> rgba))))
      else Inr layers)"
  by pat_completeness auto
termination
  apply (relation "measure (\<lambda>(decompress, decoded_string, width, height, buf, layers).
                   length decoded_string - pos buf)")
   apply simp
  apply (auto simp: tell_def dest: read_block_Inr(1))
  done

declare read_blocks.simps [simp del]

text \<open>
  \<open>base64.b64decode\<close> is a function of the standard library: the model takes it as the
  parameter \<open>b64decode\<close>, which returns \<open>None\<close> where the library raises. The slices
  \<open>blueprint_string[0:4]\<close> and \<open>blueprint_string[4:]\<close> are \<open>take 4\<close> and \<open>drop 4\<close>.
\<close>

definition read_blueprint ::
  "(string \<Rightarrow> byte list option) \<Rightarrow> (byte list \<Rightarrow> byte list option) \<Rightarrow> string
     \<Rightarrow> error + nat list \<times> (nat \<rightharpoonup> ndarray)" where
  "read_blueprint b64decode decompress blueprint_string =
     (if length blueprint_string < 40 then Inl ValueError_too_short
      else
        let blueprint_identifier = take 4 blueprint_string in
        if blueprint_identifier \<noteq> ''VCB+'' then Inl (ValueError_identifier blueprint_identifier)
        else
          (case b64decode (drop 4 blueprint_string) of None \<Rightarrow> Inl b64decode_Error
           | Some decoded_string \<Rightarrow>
             let buf = BytesIO_new decoded_string in
             (case read_header buf of Inl e \<Rightarrow> Inl e
              | Inr ((version, checksum, width, height), buf') \<Rightarrow>
                (case read_blocks decompress decoded_string width height buf' Map.empty of
                   Inl e \<Rightarrow> Inl e
                 | Inr layers \<Rightarrow> Inr (version, layers)))))"

subsection \<open>The two library functions, for concrete inputs\<close>

text \<open>
  \<open>base64.b64decode(s)\<close> of Python's standard library, called as the code calls it
  (on a \<open>str\<close>, not validating): a character that is not ASCII raises; a character
  outside the alphabet \<open>A-Z a-z 0-9 + /\<close> is skipped; a padding sign \<open>=\<close> that completes
  a group of four ends the decoding, whatever follows; an incomplete group at the end of
  the text raises. \<open>a2b_char\<close> is the value of a character of the alphabet;
  \<open>a2b_base64\<close> is the loop of \<open>binascii.a2b_base64\<close>, with the number of characters of
  the current group (\<open>quad_pos\<close>), the bits left over from the last character
  (\<open>leftchar\<close>), the number of padding signs seen (\<open>pads\<close>) and the bytes written.
\<close>

definition a2b_char :: "char \<Rightarrow> nat option" where
  "a2b_char c =
     (let n = (of_char c :: nat) in
      if 65 \<le> n \<and> n \<le> 90 then Some (n - 65)
      else if 97 \<le> n \<and> n \<le> 122 then Some (n - 71)
      else if 48 \<le> n \<and> n \<le> 57 then Some (n + 4)
      else if n = 43 then Some 62
      else if n = 47 then Some 63
      else None)"

fun a2b_base64 :: "string \<Rightarrow> nat \<Rightarrow> nat \<Rightarrow> nat \<Rightarrow> byte list \<Rightarrow> byte list option" where
  "a2b_base64 [] quad_pos leftchar pads bin_data =
     (if quad_pos \<noteq> 0 then None else Some bin_data)"
| "a2b_base64 (c # cs) quad_pos leftchar pads bin_data =
     (if c = CHR ''='' then
        (if 2 \<le> quad_pos \<and> 4 \<le> quad_pos + (pads + 1) then Some bin_data
         else a2b_base64 cs quad_pos leftchar (if 2 \<le> quad_pos then pads + 1 else pads) bin_data)
      else
        (case a2b_char c of
           None \<Rightarrow> a2b_base64 cs quad_pos leftchar pads bin_data
         | Some this_ch \<Rightarrow>
             if quad_pos = 0 then a2b_base64 cs 1 this_ch 0 bin_data
             else if quad_pos = 1 then
               a2b_base64 cs 2 (this_ch mod 16) 0
                 (bin_data @ [of_nat (leftchar * 4 + this_ch div 16)])
             else if quad_pos = 2 then
               a2b_base64 cs 3 (this_ch mod 4) 0
                 (bin_data @ [of_nat (leftchar * 16 + this_ch div 4)])
             else
               a2b_base64 cs 0 0 0 (bin_data @ [of_nat (leftchar * 64 + this_ch)])))"

definition b64decode_py :: "string \<Rightarrow> byte list option" where
  "b64decode_py s =
     (if list_ex (\<lambda>c. 128 \<le> (of_char c :: nat)) s then None else a2b_base64 s 0 0 0 [])"

text \<open>
  A decompressor for concrete inputs. It decodes the Zstandard frames made of the magic
  number \<open>28 B5 2F FD\<close>, the frame header \<open>20 n\<close> (single segment, content size \<open>n\<close> in one
  byte), and one raw last block of \<open>n < 32\<close> bytes (block header \<open>8n+1, 0, 0\<close>); the result
  is the \<open>n\<close> bytes of the block, as \<open>zstd.decompress\<close> returns them. It rejects every
  other byte string, so it stands for \<open>zstd.decompress\<close> on these frames only.
\<close>

definition zstd_raw :: "byte list \<Rightarrow> byte list option" where
  "zstd_raw frame =
     (let n = length frame - 9 in
      if 9 \<le> length frame \<and> n < 32
         \<and> take 9 frame = [0x28, 0xB5, 0x2F, 0xFD, 0x20, of_nat n, of_nat (8 * n + 1), 0, 0]
      then Some (drop 9 frame) else None)"

subsection \<open>The states of the loop\<close>

text \<open>
  \<open>loop_reaches decompress decoded_string width height start blocks (buf, layers)\<close>: from
  the state \<open>start\<close> (a buffer and the dictionary), the loop of \<open>read_blueprint\<close> is at
  the head of a turn with the buffer \<open>buf\<close> and the dictionary \<open>layers\<close>, after the
  turns that decoded \<open>blocks\<close>, the layer identifiers and arrays in stream order. Each
  turn is a turn of \<open>read_blocks\<close>: the condition holds, \<open>_read_block\<close> and the reshape
  return, and the array is stored under the identifier.
\<close>

inductive loop_reaches ::
  "(byte list \<Rightarrow> byte list option) \<Rightarrow> byte list \<Rightarrow> nat \<Rightarrow> nat
     \<Rightarrow> BytesIO \<times> (nat \<rightharpoonup> ndarray) \<Rightarrow> (nat \<times> ndarray) list
     \<Rightarrow> BytesIO \<times> (nat \<rightharpoonup> ndarray) \<Rightarrow> bool"
  for decompress decoded_string width height start
where
  start: "loop_reaches decompress decoded_string width height start [] start"
| turn:
  "loop_reaches decompress decoded_string width height start blocks (buf, layers) \<Longrightarrow>
   tell buf < length decoded_string \<Longrightarrow>
   read_block decompress buf = Inr ((layer_id, uncompressed_data), buf') \<Longrightarrow>
   frombuffer_reshape uncompressed_data (height, width, 4) = Inr rgba \<Longrightarrow>
   loop_reaches decompress decoded_string width height start
     (blocks @ [(layer_id, rgba)]) (buf', layers(layer_id \<mapsto> rgba))"

subsection \<open>Buffers that read alike\<close>

text \<open>
  Two buffers at the same position with the same bytes from that position on: what was
  read before does not matter to what is read next.
\<close>

definition same_rest :: "BytesIO \<Rightarrow> BytesIO \<Rightarrow> bool" where
  "same_rest a b \<longleftrightarrow>
     pos a = pos b \<and> drop (pos a) (getvalue a) = drop (pos b) (getvalue b)"

section \<open>Properties\<close>

subsection \<open>The header\<close>

lemma read_header_short:
  assumes "length (getvalue buf) - pos buf < 17"
  shows "read_header buf = Inl struct_error"
proof -
  obtain v buf1 where r1: "read 3 buf = (v, buf1)" by (cases "read 3 buf")
  obtain c buf2 where r2: "read 6 buf1 = (c, buf2)" by (cases "read 6 buf1")
  have p1: "pos buf1 = pos buf + min 3 (length (getvalue buf) - pos buf)"
    and g1: "getvalue buf1 = getvalue buf"
    using r1 by (auto simp: read_nonneg)
  have p2: "pos buf2 = pos buf1 + min 6 (length (getvalue buf1) - pos buf1)"
    and g2: "getvalue buf2 = getvalue buf1"
    using r2 by (auto simp: read_nonneg)
  show ?thesis
  proof (cases "length (getvalue buf2) - pos buf2 < 4")
    case True
    then show ?thesis
      using r1 r2 by (simp add: read_header_def readint_short)
  next
    case False
    then have le: "pos buf2 + 4 \<le> length (getvalue buf2)" by simp
    have "length (getvalue buf2) - (pos buf2 + 4) < 4"
      using assms p1 p2 g1 g2 False by (simp add: min_def split: if_splits)
    then have "readint (buf2\<lparr>pos := pos buf2 + 4\<rparr>) = Inl struct_error"
      by (simp add: readint_short)
    then show ?thesis
      using r1 r2 readint_ok [OF le] by (simp add: read_header_def)
  qed
qed

lemma read_header_ok:
  assumes "pos buf + 17 \<le> length (getvalue buf)"
  shows "read_header buf =
     Inr ((map unat (take 3 (drop (pos buf) (getvalue buf))),
           take 6 (drop (pos buf + 3) (getvalue buf)),
           be32 (getvalue buf) (pos buf + 9), be32 (getvalue buf) (pos buf + 13)),
          buf\<lparr>pos := pos buf + 17\<rparr>)"
proof -
  have m: "min 3 (length (getvalue buf) - pos buf) = 3"
     "min 6 (length (getvalue buf) - (pos buf + 3)) = 6"
    using assms by simp_all
  have r1: "read 3 buf = (take 3 (drop (pos buf) (getvalue buf)), buf\<lparr>pos := pos buf + 3\<rparr>)"
    using m by (simp add: read_nonneg)
  have r2: "read 6 (buf\<lparr>pos := pos buf + 3\<rparr>) =
     (take 6 (drop (pos buf + 3) (getvalue buf)), buf\<lparr>pos := pos buf + 9\<rparr>)"
    using m by (simp add: read_nonneg)
  have r3: "readint (buf\<lparr>pos := pos buf + 9\<rparr>) =
     Inr (be32 (getvalue buf) (pos buf + 9), buf\<lparr>pos := pos buf + 13\<rparr>)"
    using assms readint_ok [of "buf\<lparr>pos := pos buf + 9\<rparr>"] by simp
  have r4: "readint (buf\<lparr>pos := pos buf + 13\<rparr>) =
     Inr (be32 (getvalue buf) (pos buf + 13), buf\<lparr>pos := pos buf + 17\<rparr>)"
    using assms readint_ok [of "buf\<lparr>pos := pos buf + 13\<rparr>"] by simp
  show ?thesis
    by (simp add: read_header_def r1 r2 r3 r4)
qed

text \<open>
  Claim C4. When the decoded bytes are fewer than 17, reading the header fails with a
  \<open>TruncatedInputError\<close> (the \<open>struct.error\<close> of \<open>_readint\<close>). When they are 17 or more,
  it succeeds, the position moves by exactly 17 bytes, and the header holds the 3
  version bytes, the 6 checksum bytes and the big-endian width and height at offsets 9
  and 13.
\<close>

theorem read_header_truncated_or_17:
  "(length bs < 17 \<longrightarrow>
      (\<exists>e. read_header (BytesIO_new bs) = Inl e \<and> kind e = TruncatedInputError)) \<and>
   (17 \<le> length bs \<longrightarrow>
      (\<exists>header buf'. read_header (BytesIO_new bs) = Inr (header, buf') \<and>
         tell buf' = tell (BytesIO_new bs) + 17 \<and> getvalue buf' = bs \<and>
         header = (map unat (take 3 bs), take 6 (drop 3 bs), be32 bs 9, be32 bs 13)))"
  using read_header_short [of "BytesIO_new bs"] read_header_ok [of "BytesIO_new bs"]
  by (simp add: BytesIO_new_def tell_def)

theorem read_header_truncated_or_17_witness:
  "(\<exists>e. read_header (BytesIO_new [1, 2, 3, 4, 5, 6, 7, 8, 9, 0, 0, 0, 2, 0, 0, 0]) = Inl e
       \<and> kind e = TruncatedInputError) \<and>
   (\<exists>header buf'.
       read_header (BytesIO_new [1, 2, 3, 4, 5, 6, 7, 8, 9, 0, 0, 1, 2, 0, 0, 0, 1, 77])
         = Inr (header, buf') \<and>
       tell buf' = 17 \<and> header = ([1, 2, 3], [4, 5, 6, 7, 8, 9], 258, 1))"
proof -
  have "\<exists>e. read_header (BytesIO_new [1, 2, 3, 4, 5, 6, 7, 8, 9, 0, 0, 0, 2, 0, 0, 0]) = Inl e
       \<and> kind e = TruncatedInputError"
    using read_header_truncated_or_17 [of "[1, 2, 3, 4, 5, 6, 7, 8, 9, 0, 0, 0, 2, 0, 0, 0]"]
    by simp
  moreover have "\<exists>header buf'.
       read_header (BytesIO_new [1, 2, 3, 4, 5, 6, 7, 8, 9, 0, 0, 1, 2, 0, 0, 0, 1, 77])
         = Inr (header, buf') \<and>
       tell buf' = 17 \<and> header = ([1, 2, 3], [4, 5, 6, 7, 8, 9], 258, 1)"
    using read_header_truncated_or_17
            [of "[1, 2, 3, 4, 5, 6, 7, 8, 9, 0, 0, 1, 2, 0, 0, 0, 1, 77]"]
    by (auto simp: be32_def BytesIO_new_def tell_def)
  ultimately show ?thesis by blast
qed

subsection \<open>Blocks and the loop\<close>

lemma read_block_short:
  assumes "length (getvalue buf) - pos buf < 12"
  shows "read_block decompress buf = Inl struct_error"
proof (cases "pos buf + 4 \<le> length (getvalue buf)")
  case False
  then show ?thesis by (simp add: read_block_def readint_short)
next
  case le1: True
  show ?thesis
  proof (cases "pos buf + 8 \<le> length (getvalue buf)")
    case False
    then have "readint (buf\<lparr>pos := pos buf + 4\<rparr>) = Inl struct_error"
      by (simp add: readint_short)
    then show ?thesis by (simp add: read_block_def readint_ok [OF le1])
  next
    case True
    then have r2: "readint (buf\<lparr>pos := pos buf + 4\<rparr>) =
        Inr (be32 (getvalue buf) (pos buf + 4), buf\<lparr>pos := pos buf + 8\<rparr>)"
      using readint_ok [of "buf\<lparr>pos := pos buf + 4\<rparr>"] by simp
    have "readint (buf\<lparr>pos := pos buf + 8\<rparr>) = Inl struct_error"
      using assms by (simp add: readint_short)
    then show ?thesis by (simp add: read_block_def readint_ok [OF le1] r2)
  qed
qed

lemma read_block_ok:
  assumes "pos buf + 12 \<le> length (getvalue buf)"
  shows "read_block decompress buf =
     (case read (int (be32 (getvalue buf) (pos buf)) - 12) (buf\<lparr>pos := pos buf + 12\<rparr>) of
        (compressed_data, buf4) \<Rightarrow>
          (case decompress compressed_data of None \<Rightarrow> Inl zstd_Error
           | Some uncompressed_data \<Rightarrow>
               if length uncompressed_data \<noteq> be32 (getvalue buf) (pos buf + 8)
               then Inl (ValueError_size_mismatch (be32 (getvalue buf) (pos buf + 8))
                           (length compressed_data))
               else Inr ((be32 (getvalue buf) (pos buf + 4), uncompressed_data), buf4)))"
proof -
  have r1: "readint buf = Inr (be32 (getvalue buf) (pos buf), buf\<lparr>pos := pos buf + 4\<rparr>)"
    using assms by (simp add: readint_ok)
  have r2: "readint (buf\<lparr>pos := pos buf + 4\<rparr>) =
        Inr (be32 (getvalue buf) (pos buf + 4), buf\<lparr>pos := pos buf + 8\<rparr>)"
    using assms readint_ok [of "buf\<lparr>pos := pos buf + 4\<rparr>"] by simp
  have r3: "readint (buf\<lparr>pos := pos buf + 8\<rparr>) =
        Inr (be32 (getvalue buf) (pos buf + 8), buf\<lparr>pos := pos buf + 12\<rparr>)"
    using assms readint_ok [of "buf\<lparr>pos := pos buf + 8\<rparr>"] by simp
  show ?thesis
    by (simp add: read_block_def r1 r2 r3)
qed



lemma frombuffer_reshape_Inl:
  "frombuffer_reshape buffer newshape = Inl e \<Longrightarrow> kind e = SizeMismatchError"
  by (auto simp: frombuffer_reshape_def split: prod.splits if_splits)


lemma read_blocks_end:
  "\<not> tell buf < length decoded_string \<Longrightarrow>
   read_blocks decompress decoded_string width height buf layers = Inr layers"
  by (simp add: read_blocks.simps)

lemma read_blocks_block_error:
  "tell buf < length decoded_string \<Longrightarrow> read_block decompress buf = Inl e \<Longrightarrow>
   read_blocks decompress decoded_string width height buf layers = Inl e"
  by (simp add: read_blocks.simps)

lemma read_blocks_reshape_error:
  "tell buf < length decoded_string \<Longrightarrow>
   read_block decompress buf = Inr ((layer_id, uncompressed_data), buf') \<Longrightarrow>
   frombuffer_reshape uncompressed_data (height, width, 4) = Inl e \<Longrightarrow>
   read_blocks decompress decoded_string width height buf layers = Inl e"
  by (simp add: read_blocks.simps)

lemma read_blocks_turn:
  "tell buf < length decoded_string \<Longrightarrow>
   read_block decompress buf = Inr ((layer_id, uncompressed_data), buf') \<Longrightarrow>
   frombuffer_reshape uncompressed_data (height, width, 4) = Inr rgba \<Longrightarrow>
   read_blocks decompress decoded_string width height buf layers =
   read_blocks decompress decoded_string width height buf' (layers(layer_id \<mapsto> rgba))"
  by (simp add: read_blocks.simps)

lemma loop_reaches_read_blocks:
  assumes "loop_reaches decompress decoded_string width height (buf0, layers0) blocks (buf, layers)"
  shows "read_blocks decompress decoded_string width height buf0 layers0 =
         read_blocks decompress decoded_string width height buf layers"
  using assms
proof (induction blocks "(buf, layers)" arbitrary: buf layers rule: loop_reaches.induct)
  case start
  then show ?case by simp
next
  case (turn blocks buf layers layer_id uncompressed_data buf' rgba)
  then show ?case by (simp add: read_blocks_turn)
qed

lemma loop_reaches_getvalue:
  assumes "loop_reaches decompress decoded_string width height (buf0, layers0) blocks (buf, layers)"
  shows "getvalue buf = getvalue buf0"
  using assms
proof (induction blocks "(buf, layers)" arbitrary: buf layers rule: loop_reaches.induct)
  case start
  then show ?case by simp
next
  case (turn blocks buf layers layer_id uncompressed_data buf' rgba)
  then show ?case using read_block_Inr(2) by fastforce
qed

lemma loop_reaches_layers:
  assumes "loop_reaches decompress decoded_string width height (buf0, layers0) blocks (buf, layers)"
  shows "layers = layers0 ++ map_of (rev blocks)"
  using assms
proof (induction blocks "(buf, layers)" arbitrary: buf layers rule: loop_reaches.induct)
  case start
  then show ?case by simp
next
  case (turn blocks buf layers layer_id uncompressed_data buf' rgba)
  then have "layers = layers0 ++ map_of (rev blocks)" by simp
  then show ?case by simp
qed

lemma loop_reaches_first:
  assumes "loop_reaches decompress decoded_string width height
             (buf1, layers0(layer_id \<mapsto> rgba)) blocks fin"
    and "tell buf0 < length decoded_string"
    and "read_block decompress buf0 = Inr ((layer_id, uncompressed_data), buf1)"
    and "frombuffer_reshape uncompressed_data (height, width, 4) = Inr rgba"
  shows "loop_reaches decompress decoded_string width height
             (buf0, layers0) ((layer_id, rgba) # blocks) fin"
  using assms
proof (induction rule: loop_reaches.induct)
  case start
  have "loop_reaches decompress decoded_string width height (buf0, layers0)
          ([] @ [(layer_id, rgba)]) (buf1, layers0(layer_id \<mapsto> rgba))"
    using start by (intro loop_reaches.turn [OF loop_reaches.start])
  then show ?case by simp
next
  case (turn blocks buf layers lid u buf' a)
  have "loop_reaches decompress decoded_string width height (buf0, layers0)
          (((layer_id, rgba) # blocks) @ [(lid, a)]) (buf', layers(lid \<mapsto> a))"
    using turn by (intro loop_reaches.turn) simp_all
  then show ?case by simp
qed

lemma read_blocks_Inr:
  "read_blocks decompress decoded_string width height buf layers = Inr result \<Longrightarrow>
   \<exists>blocks buf_end.
     loop_reaches decompress decoded_string width height (buf, layers) blocks (buf_end, result)
     \<and> \<not> tell buf_end < length decoded_string"
proof (induction decompress decoded_string width height buf layers rule: read_blocks.induct)
  case (1 decompress decoded_string width height buf layers)
  show ?case
  proof (cases "tell buf < length decoded_string")
    case False
    with "1.prems" have "result = layers" by (simp add: read_blocks_end)
    with False show ?thesis using loop_reaches.start by blast
  next
    case True
    from True "1.prems" obtain layer_id uncompressed_data buf'
      where rb: "read_block decompress buf = Inr ((layer_id, uncompressed_data), buf')"
      by (cases "read_block decompress buf") (auto simp: read_blocks_block_error)
    from True "1.prems" rb obtain rgba
      where fr: "frombuffer_reshape uncompressed_data (height, width, 4) = Inr rgba"
      by (cases "frombuffer_reshape uncompressed_data (height, width, 4)")
         (auto simp: read_blocks_reshape_error)
    have "read_blocks decompress decoded_string width height buf'
            (layers(layer_id \<mapsto> rgba)) = Inr result"
      using "1.prems" read_blocks_turn [OF True rb fr] by simp
    then have "\<exists>blocks buf_end.
        loop_reaches decompress decoded_string width height
          (buf', layers(layer_id \<mapsto> rgba)) blocks (buf_end, result)
        \<and> \<not> tell buf_end < length decoded_string"
      using "1.IH" [OF True rb refl refl fr] by (simp add: fun_upd_def)
    then obtain blocks buf_end where
      "loop_reaches decompress decoded_string width height
          (buf', layers(layer_id \<mapsto> rgba)) blocks (buf_end, result)"
      and e: "\<not> tell buf_end < length decoded_string"
      by blast
    then have "loop_reaches decompress decoded_string width height (buf, layers)
                 ((layer_id, rgba) # blocks) (buf_end, result)"
      using loop_reaches_first True rb fr by blast
    with e show ?thesis by blast
  qed
qed

lemma read_blueprint_envelope:
  assumes "40 \<le> length s" and "take 4 s = ''VCB+''"
    and "b64decode (drop 4 s) = Some decoded_string" and "17 \<le> length decoded_string"
  shows "read_blueprint b64decode decompress s =
     (case read_blocks decompress decoded_string (be32 decoded_string 9) (be32 decoded_string 13)
             \<lparr>getvalue = decoded_string, pos = 17\<rparr> Map.empty of
        Inl e \<Rightarrow> Inl e
      | Inr layers \<Rightarrow> Inr (map unat (take 3 decoded_string), layers))"
proof -
  have "read_header (BytesIO_new decoded_string) =
      Inr ((map unat (take 3 decoded_string), take 6 (drop 3 decoded_string),
            be32 decoded_string 9, be32 decoded_string 13),
           \<lparr>getvalue = decoded_string, pos = 17\<rparr>)"
    using assms(4) read_header_ok [of "BytesIO_new decoded_string"]
    by (simp add: BytesIO_new_def)
  then show ?thesis
    using assms by (simp add: read_blueprint_def)
qed

lemma read_block_at:
  assumes "p + 12 \<le> length g"
  shows "read_block decompress \<lparr>getvalue = g, pos = p\<rparr> =
     (let compressed_data =
            (if be32 g p < 12 then drop (p + 12) g else take (be32 g p - 12) (drop (p + 12) g))
      in case decompress compressed_data of None \<Rightarrow> Inl zstd_Error
         | Some uncompressed_data \<Rightarrow>
             if length uncompressed_data \<noteq> be32 g (p + 8)
             then Inl (ValueError_size_mismatch (be32 g (p + 8)) (length compressed_data))
             else Inr ((be32 g (p + 4), uncompressed_data),
                       \<lparr>getvalue = g, pos = p + 12 + length compressed_data\<rparr>))"
proof -
  have "nat (int (be32 g p) - 12) = be32 g p - 12" by simp
  then show ?thesis
    using assms read_block_ok [of "\<lparr>getvalue = g, pos = p\<rparr>" decompress]
    by (simp add: read_def Let_def split: option.splits)
qed

subsection \<open>The envelope\<close>













text \<open>
  Claim C10. When the string has 40 characters or more, starts with \<open>VCB+\<close>, and the
  decoder returns exactly 17 bytes, \<open>read_blueprint\<close> returns the version, the first 3
  bytes, and an empty dictionary: the loop makes no turn.
\<close>

theorem header_only:
  assumes "40 \<le> length s" and "take 4 s = ''VCB+''"
    and "b64decode (drop 4 s) = Some decoded_string" and "length decoded_string = 17"
  shows "read_blueprint b64decode decompress s = Inr (map unat (take 3 decoded_string), Map.empty)"
  using assms by (simp add: read_blueprint_envelope read_blocks_end tell_def)

lemma b64_b: "b64decode_py (drop 4 (''VCB+AAEAAAAAAAAAAAAAAgAAAAE='' @ replicate 12 (CHR 0x0A)))
   = Some [0, 1, 0, 0, 0, 0, 0, 0, 0, 0, 0, 0, 2, 0, 0, 0, 1]"
  by code_simp

theorem header_only_witness:
  "read_blueprint b64decode_py zstd_raw (''VCB+AAEAAAAAAAAAAAAAAgAAAAE='' @ replicate 12 (CHR 0x0A))
     = Inr ([0, 1, 0], Map.empty)"
  using header_only [of "''VCB+AAEAAAAAAAAAAAAAAgAAAAE='' @ replicate 12 (CHR 0x0A)" b64decode_py
          "[0, 1, 0, 0, 0, 0, 0, 0, 0, 0, 0, 0, 2, 0, 0, 0, 1]" zstd_raw] b64_b
  by simp

subsection \<open>The example of the specification\<close>

text \<open>
  Claim C1. A string that decodes to a header with width 2 and height 1 and one block
  with layer identifier 7, declared size 8 and a payload that decompresses to the 8 bytes
  \<open>255 0 0 255 0 255 0 255\<close> is read without error; the dictionary has the one key 7,
  and its array has the shape \<open>(1, 2, 4)\<close> and the rows \<open>[[[255,0,0,255],[0,255,0,255]]]\<close>.
\<close>

theorem example_one_layer:
  assumes "40 \<le> length s" and "take 4 s = ''VCB+''"
    and "b64decode (drop 4 s) = Some decoded_string"
    and "length decoded_string = 29 + length payload" and "drop 29 decoded_string = payload"
    and "be32 decoded_string 9 = 2" and "be32 decoded_string 13 = 1"
    and "be32 decoded_string 17 = 12 + length payload"
    and "be32 decoded_string 21 = 7" and "be32 decoded_string 25 = 8"
    and "decompress payload = Some [255, 0, 0, 255, 0, 255, 0, 255]"
  shows "read_blueprint b64decode decompress s =
           Inr (map unat (take 3 decoded_string),
                [7 \<mapsto> \<lparr>shape = (1, 2, 4), flat = [255, 0, 0, 255, 0, 255, 0, 255]\<rparr>])
         \<and> tolist \<lparr>shape = (1, 2, 4), flat = [255, 0, 0, 255, 0, 255, 0, 255]\<rparr>
             = [[[255, 0, 0, 255], [0, 255, 0, 255]]]"
proof -
  let ?a = "\<lparr>shape = (1, 2, 4), flat = [255, 0, 0, 255, 0, 255, 0, 255 :: byte]\<rparr>"
  let ?buf0 = "\<lparr>getvalue = decoded_string, pos = 17\<rparr>"
  let ?buf1 = "\<lparr>getvalue = decoded_string, pos = 29 + length payload\<rparr>"
  have c: "take (length payload) (drop 29 decoded_string) = payload"
    using assms(5) by simp
  have rb: "read_block decompress ?buf0 = Inr ((7, [255, 0, 0, 255, 0, 255, 0, 255]), ?buf1)"
    using assms(4,8-11) c read_block_at [of 17 decoded_string decompress] by simp
  have fr: "frombuffer_reshape [255, 0, 0, 255, 0, 255, 0, 255] (1, 2, 4) = Inr ?a"
    by (simp add: frombuffer_reshape_def)
  have "read_blocks decompress decoded_string 2 1 ?buf0 Map.empty =
        read_blocks decompress decoded_string 2 1 ?buf1 [7 \<mapsto> ?a]"
    using assms(4) by (intro read_blocks_turn [OF _ rb fr]) (simp add: tell_def)
  also have "\<dots> = Inr [7 \<mapsto> ?a]"
    using assms(4) by (simp add: read_blocks_end tell_def)
  finally have "read_blueprint b64decode decompress s =
      Inr (map unat (take 3 decoded_string), [7 \<mapsto> ?a])"
    using assms(1-4,6,7) by (simp add: read_blueprint_envelope)
  moreover have "tolist ?a = [[[255, 0, 0, 255], [0, 255, 0, 255]]]"
    by code_simp
  ultimately show ?thesis by simp
qed

lemma b64_d:
  "b64decode_py (drop 4 ''VCB+AAEAAAAAAAAAAAAAAgAAAAEAAAAdAAAABwAAAAgotS/9IAhBAAD/AAD/AP8A/w=='')
   = Some [0, 1, 0, 0, 0, 0, 0, 0, 0, 0, 0, 0, 2, 0, 0, 0, 1, 0, 0, 0, 29, 0, 0, 0, 7, 0, 0, 0, 8,
           40, 181, 47, 253, 32, 8, 65, 0, 0, 255, 0, 0, 255, 0, 255, 0, 255]"
  by code_simp

lemma zstd_raw_a:
  "zstd_raw [40, 181, 47, 253, 32, 8, 65, 0, 0, 255, 0, 0, 255, 0, 255, 0, 255]
     = Some [255, 0, 0, 255, 0, 255, 0, 255]"
  by (simp add: zstd_raw_def)

theorem example_one_layer_witness:
  "read_blueprint b64decode_py zstd_raw
     ''VCB+AAEAAAAAAAAAAAAAAgAAAAEAAAAdAAAABwAAAAgotS/9IAhBAAD/AAD/AP8A/w==''
   = Inr ([0, 1, 0], [7 \<mapsto> \<lparr>shape = (1, 2, 4), flat = [255, 0, 0, 255, 0, 255, 0, 255]\<rparr>])
   \<and> tolist \<lparr>shape = (1, 2, 4), flat = [255, 0, 0, 255, 0, 255, 0, 255]\<rparr>
             = [[[255, 0, 0, 255], [0, 255, 0, 255]]]"
  using example_one_layer
    [of "''VCB+AAEAAAAAAAAAAAAAAgAAAAEAAAAdAAAABwAAAAgotS/9IAhBAAD/AAD/AP8A/w==''" b64decode_py
        "[0, 1, 0, 0, 0, 0, 0, 0, 0, 0, 0, 0, 2, 0, 0, 0, 1, 0, 0, 0, 29, 0, 0, 0, 7, 0, 0, 0, 8,
           40, 181, 47, 253, 32, 8, 65, 0, 0, 255, 0, 0, 255, 0, 255, 0, 255]"
        "[40, 181, 47, 253, 32, 8, 65, 0, 0, 255, 0, 0, 255, 0, 255, 0, 255]" zstd_raw]
    b64_d zstd_raw_a
  by (simp add: be32_def)

lemma read_blueprint_at_turn:
  assumes "40 \<le> length s" and "take 4 s = ''VCB+''"
    and "b64decode (drop 4 s) = Some decoded_string" and "17 \<le> length decoded_string"
    and "loop_reaches decompress decoded_string (be32 decoded_string 9) (be32 decoded_string 13)
           (\<lparr>getvalue = decoded_string, pos = 17\<rparr>, Map.empty) blocks (buf, layers)"
  shows "read_blueprint b64decode decompress s =
     (case read_blocks decompress decoded_string (be32 decoded_string 9) (be32 decoded_string 13)
             buf layers of
        Inl e \<Rightarrow> Inl e
      | Inr result \<Rightarrow> Inr (map unat (take 3 decoded_string), result))"
  using assms(1-4) loop_reaches_read_blocks [OF assms(5)]
  by (simp add: read_blueprint_envelope)

lemma read_block_rest:
  assumes "pos buf + 12 \<le> length (getvalue buf)"
    and "be32 (getvalue buf) (pos buf) < 12
         \<or> length (getvalue buf) - (pos buf + 12) \<le> be32 (getvalue buf) (pos buf) - 12"
  shows "read_block decompress buf =
     (case decompress (drop (pos buf + 12) (getvalue buf)) of None \<Rightarrow> Inl zstd_Error
      | Some uncompressed_data \<Rightarrow>
          if length uncompressed_data \<noteq> be32 (getvalue buf) (pos buf + 8)
          then Inl (ValueError_size_mismatch (be32 (getvalue buf) (pos buf + 8))
                      (length (getvalue buf) - (pos buf + 12)))
          else Inr ((be32 (getvalue buf) (pos buf + 4), uncompressed_data),
                    buf\<lparr>pos := length (getvalue buf)\<rparr>))"
proof -
  have "read (int (be32 (getvalue buf) (pos buf)) - 12) (buf\<lparr>pos := pos buf + 12\<rparr>) =
        (drop (pos buf + 12) (getvalue buf), buf\<lparr>pos := length (getvalue buf)\<rparr>)"
    using assms by (auto simp: read_def Let_def)
  then show ?thesis
    using read_block_ok [OF assms(1), of decompress] by (simp split: option.splits)
qed

lemma last_block_result:
  assumes "40 \<le> length s" and "take 4 s = ''VCB+''"
    and "b64decode (drop 4 s) = Some decoded_string" and "17 \<le> length decoded_string"
    and "loop_reaches decompress decoded_string (be32 decoded_string 9) (be32 decoded_string 13)
           (\<lparr>getvalue = decoded_string, pos = 17\<rparr>, Map.empty) blocks (buf, layers)"
    and "pos buf + 12 \<le> length decoded_string"
    and "be32 decoded_string (pos buf) < 12
         \<or> length decoded_string - (pos buf + 12) \<le> be32 decoded_string (pos buf) - 12"
  shows "read_blueprint b64decode decompress s =
     (case decompress (drop (pos buf + 12) decoded_string) of None \<Rightarrow> Inl zstd_Error
      | Some uncompressed_data \<Rightarrow>
          if length uncompressed_data \<noteq> be32 decoded_string (pos buf + 8)
          then Inl (ValueError_size_mismatch (be32 decoded_string (pos buf + 8))
                      (length decoded_string - (pos buf + 12)))
          else (case frombuffer_reshape uncompressed_data
                       (be32 decoded_string 13, be32 decoded_string 9, 4) of
                  Inl e \<Rightarrow> Inl e
                | Inr rgba \<Rightarrow>
                    Inr (map unat (take 3 decoded_string),
                         layers(be32 decoded_string (pos buf + 4) \<mapsto> rgba))))"
proof -
  let ?w = "be32 decoded_string 9" and ?h = "be32 decoded_string 13"
  have g: "getvalue buf = decoded_string"
    using loop_reaches_getvalue [OF assms(5)] by simp
  have t: "tell buf < length decoded_string"
    using assms(6) by (simp add: tell_def)
  note rb = read_block_rest [of buf decompress, unfolded g, OF assms(6,7)]
  have "read_blocks decompress decoded_string ?w ?h buf layers =
     (case decompress (drop (pos buf + 12) decoded_string) of None \<Rightarrow> Inl zstd_Error
      | Some uncompressed_data \<Rightarrow>
          if length uncompressed_data \<noteq> be32 decoded_string (pos buf + 8)
          then Inl (ValueError_size_mismatch (be32 decoded_string (pos buf + 8))
                      (length decoded_string - (pos buf + 12)))
          else (case frombuffer_reshape uncompressed_data (?h, ?w, 4) of
                  Inl e \<Rightarrow> Inl e
                | Inr rgba \<Rightarrow> Inr (layers(be32 decoded_string (pos buf + 4) \<mapsto> rgba))))"
  proof (cases "decompress (drop (pos buf + 12) decoded_string)")
    case None
    then show ?thesis using rb t by (simp add: read_blocks_block_error)
  next
    case (Some u)
    show ?thesis
    proof (cases "length u \<noteq> be32 decoded_string (pos buf + 8)")
      case True
      then show ?thesis using rb t Some by (simp add: read_blocks_block_error)
    next
      case False
      then have rb': "read_block decompress buf =
          Inr ((be32 decoded_string (pos buf + 4), u), buf\<lparr>pos := length decoded_string\<rparr>)"
        using rb Some by simp
      show ?thesis
      proof (cases "frombuffer_reshape u (?h, ?w, 4)")
        case (Inl e)
        then show ?thesis
          using Some False read_blocks_reshape_error [OF t rb' Inl] by simp
      next
        case (Inr rgba)
        have "read_blocks decompress decoded_string ?w ?h buf layers =
              read_blocks decompress decoded_string ?w ?h (buf\<lparr>pos := length decoded_string\<rparr>)
                (layers(be32 decoded_string (pos buf + 4) \<mapsto> rgba))"
          by (rule read_blocks_turn [OF t rb' Inr])
        then show ?thesis
          using Some False Inr by (simp add: read_blocks_end tell_def)
      qed
    qed
  qed
  then show ?thesis
    using assms(1-5)
    by (simp add: read_blueprint_at_turn split: option.splits sum.splits)
qed

subsection \<open>The size of the decompressed data\<close>

text \<open>
  Claim C2. The loop is at the head of a turn, after any number of blocks. When the three
  integers of the block are read, and the bytes that \<open>buf.read(block_size - 12)\<close>
  returns decompress to a length that differs from the declared size, \<open>_read_block\<close>
  raises the size error, and so does \<open>read_blueprint\<close>: the result is the error, a
  \<open>SizeMismatchError\<close>, and no dictionary is returned.
\<close>

theorem size_mismatch_aborts:
  assumes "40 \<le> length s" and "take 4 s = ''VCB+''"
    and "b64decode (drop 4 s) = Some decoded_string" and "17 \<le> length decoded_string"
    and "loop_reaches decompress decoded_string (be32 decoded_string 9) (be32 decoded_string 13)
           (\<lparr>getvalue = decoded_string, pos = 17\<rparr>, Map.empty) blocks (buf, layers)"
    and "readint buf = Inr (block_size, buf1)"
    and "readint buf1 = Inr (layer_id, buf2)"
    and "readint buf2 = Inr (buffer_size, buf3)"
    and "read (int block_size - 12) buf3 = (compressed_data, buf4)"
    and "decompress compressed_data = Some uncompressed_data"
    and "length uncompressed_data \<noteq> buffer_size"
  shows "read_block decompress buf =
           Inl (ValueError_size_mismatch buffer_size (length compressed_data))
       \<and> read_blueprint b64decode decompress s =
           Inl (ValueError_size_mismatch buffer_size (length compressed_data))
       \<and> kind (ValueError_size_mismatch buffer_size (length compressed_data)) = SizeMismatchError"
proof -
  have rb: "read_block decompress buf =
      Inl (ValueError_size_mismatch buffer_size (length compressed_data))"
    using assms(6-11) by (simp add: read_block_def)
  have "pos buf + 4 \<le> length (getvalue buf)"
    using readint_Inr [OF assms(6)] by simp
  then have "tell buf < length decoded_string"
    using loop_reaches_getvalue [OF assms(5)] by (simp add: tell_def)
  then have "read_blocks decompress decoded_string (be32 decoded_string 9)
               (be32 decoded_string 13) buf layers =
             Inl (ValueError_size_mismatch buffer_size (length compressed_data))"
    using rb by (rule read_blocks_block_error)
  then show ?thesis
    using rb assms(1-5) by (simp add: read_blueprint_at_turn)
qed

lemma b64_e:
  "b64decode_py (drop 4 ''VCB+AAEAAAAAAAAAAAAAAgAAAAEAAAAdAAAABwAAAAgotS/9IAhBAAD/AAD/AP8A/wAAAB0AAAAIAAAACSi1L/0gCEEAAAECAwQFBgcI'')
   = Some [0, 1, 0, 0, 0, 0, 0, 0, 0, 0, 0, 0, 2, 0, 0, 0, 1, 0, 0, 0, 29, 0, 0, 0, 7, 0, 0, 0, 8,
           40, 181, 47, 253, 32, 8, 65, 0, 0, 255, 0, 0, 255, 0, 255, 0, 255, 0, 0, 0, 29, 0, 0,
           0, 8, 0, 0, 0, 9, 40, 181, 47, 253, 32, 8, 65, 0, 0, 1, 2, 3, 4, 5, 6, 7, 8]"
  by code_simp

lemma zstd_raw_b:
  "zstd_raw [40, 181, 47, 253, 32, 8, 65, 0, 0, 1, 2, 3, 4, 5, 6, 7, 8]
     = Some [1, 2, 3, 4, 5, 6, 7, 8]"
  by (simp add: zstd_raw_def)

theorem size_mismatch_aborts_witness:
  "read_blueprint b64decode_py zstd_raw
     ''VCB+AAEAAAAAAAAAAAAAAgAAAAEAAAAdAAAABwAAAAgotS/9IAhBAAD/AAD/AP8A/wAAAB0AAAAIAAAACSi1L/0gCEEAAAECAwQFBgcI''
   = Inl (ValueError_size_mismatch 9 17)
   \<and> kind (ValueError_size_mismatch 9 17) = SizeMismatchError"
proof -
  let ?s = "''VCB+AAEAAAAAAAAAAAAAAgAAAAEAAAAdAAAABwAAAAgotS/9IAhBAAD/AAD/AP8A/wAAAB0AAAAIAAAACSi1L/0gCEEAAAECAwQFBgcI''"
  let ?d = "[0, 1, 0, 0, 0, 0, 0, 0, 0, 0, 0, 0, 2, 0, 0, 0, 1, 0, 0, 0, 29, 0, 0, 0, 7, 0, 0, 0, 8,
           40, 181, 47, 253, 32, 8, 65, 0, 0, 255, 0, 0, 255, 0, 255, 0, 255, 0, 0, 0, 29, 0, 0,
           0, 8, 0, 0, 0, 9, 40, 181, 47, 253, 32, 8, 65, 0, 0, 1, 2, 3, 4, 5, 6, 7, 8 :: byte]"
  let ?a = "\<lparr>shape = (1, 2, 4), flat = [255, 0, 0, 255, 0, 255, 0, 255 :: byte]\<rparr>"
  have w: "be32 ?d 9 = 2" and h: "be32 ?d 13 = 1"
    by (simp_all add: be32_def)
  have rb: "read_block zstd_raw \<lparr>getvalue = ?d, pos = 17\<rparr> =
      Inr ((7, [255, 0, 0, 255, 0, 255, 0, 255]), \<lparr>getvalue = ?d, pos = 46\<rparr>)"
    using zstd_raw_a by (simp add: read_block_at be32_def)
  have fr: "frombuffer_reshape [255, 0, 0, 255, 0, 255, 0, 255] (1, 2, 4) = Inr ?a"
    by (simp add: frombuffer_reshape_def)
  have "loop_reaches zstd_raw ?d 2 1 (\<lparr>getvalue = ?d, pos = 17\<rparr>, Map.empty)
          ([] @ [(7, ?a)]) (\<lparr>getvalue = ?d, pos = 46\<rparr>, [7 \<mapsto> ?a])"
    using rb fr by (intro loop_reaches.turn [OF loop_reaches.start]) (simp add: tell_def)
  then have reach: "loop_reaches zstd_raw ?d (be32 ?d 9) (be32 ?d 13)
       (\<lparr>getvalue = ?d, pos = 17\<rparr>, Map.empty) [(7, ?a)]
       (\<lparr>getvalue = ?d, pos = 46\<rparr>, [7 \<mapsto> ?a])"
    using w h by simp
  have r1: "readint \<lparr>getvalue = ?d, pos = 46\<rparr> = Inr (29, \<lparr>getvalue = ?d, pos = 50\<rparr>)"
    and r2: "readint \<lparr>getvalue = ?d, pos = 50\<rparr> = Inr (8, \<lparr>getvalue = ?d, pos = 54\<rparr>)"
    and r3: "readint \<lparr>getvalue = ?d, pos = 54\<rparr> = Inr (9, \<lparr>getvalue = ?d, pos = 58\<rparr>)"
    by (simp_all add: readint_ok be32_def)
  have r4: "read (int 29 - 12) \<lparr>getvalue = ?d, pos = 58\<rparr> =
      ([40, 181, 47, 253, 32, 8, 65, 0, 0, 1, 2, 3, 4, 5, 6, 7, 8], \<lparr>getvalue = ?d, pos = 75\<rparr>)"
    by (simp add: read_def Let_def)
  show ?thesis
    using size_mismatch_aborts [of ?s b64decode_py ?d zstd_raw "[(7, ?a)]"
        "\<lparr>getvalue = ?d, pos = 46\<rparr>" "[7 \<mapsto> ?a]" 29 "\<lparr>getvalue = ?d, pos = 50\<rparr>"
        8 "\<lparr>getvalue = ?d, pos = 54\<rparr>" 9 "\<lparr>getvalue = ?d, pos = 58\<rparr>"
        "[40, 181, 47, 253, 32, 8, 65, 0, 0, 1, 2, 3, 4, 5, 6, 7, 8]"
        "\<lparr>getvalue = ?d, pos = 75\<rparr>" "[1, 2, 3, 4, 5, 6, 7, 8]", OF _ _ b64_e _ reach r1 r2 r3 r4 zstd_raw_b]
    by simp
qed

subsection \<open>Truncated blocks\<close>

text \<open>
  Claim C5, as amended. The loop is at the head of a turn with the position before the
  end. When fewer than 12 bytes remain, \<open>read_blueprint\<close> fails with a
  \<open>TruncatedInputError\<close> (the \<open>struct.error\<close> of \<open>_readint\<close>). When the three integers are
  there and the block size is below 12, nothing is raised for that: \<open>buf.read\<close> is
  called with a negative number and returns all the bytes that remain, and the result
  is decided by the decompressor, the declared size and the reshape.
\<close>

theorem truncated_block_header:
  assumes "40 \<le> length s" and "take 4 s = ''VCB+''"
    and "b64decode (drop 4 s) = Some decoded_string" and "17 \<le> length decoded_string"
    and "loop_reaches decompress decoded_string (be32 decoded_string 9) (be32 decoded_string 13)
           (\<lparr>getvalue = decoded_string, pos = 17\<rparr>, Map.empty) blocks (buf, layers)"
    and "tell buf < length decoded_string"
  shows "(length decoded_string - pos buf < 12 \<longrightarrow>
            read_blueprint b64decode decompress s = Inl struct_error
            \<and> kind struct_error = TruncatedInputError)
       \<and> (pos buf + 12 \<le> length decoded_string \<and> be32 decoded_string (pos buf) < 12 \<longrightarrow>
            read_blueprint b64decode decompress s =
              (case decompress (drop (pos buf + 12) decoded_string) of None \<Rightarrow> Inl zstd_Error
               | Some uncompressed_data \<Rightarrow>
                   if length uncompressed_data \<noteq> be32 decoded_string (pos buf + 8)
                   then Inl (ValueError_size_mismatch (be32 decoded_string (pos buf + 8))
                               (length decoded_string - (pos buf + 12)))
                   else (case frombuffer_reshape uncompressed_data
                                (be32 decoded_string 13, be32 decoded_string 9, 4) of
                           Inl e \<Rightarrow> Inl e
                         | Inr rgba \<Rightarrow>
                             Inr (map unat (take 3 decoded_string),
                                  layers(be32 decoded_string (pos buf + 4) \<mapsto> rgba)))))"
proof (intro conjI impI)
  assume short: "length decoded_string - pos buf < 12"
  have "getvalue buf = decoded_string"
    using loop_reaches_getvalue [OF assms(5)] by simp
  with short have "read_block decompress buf = Inl struct_error"
    by (simp add: read_block_short)
  with assms(6) have "read_blocks decompress decoded_string (be32 decoded_string 9)
      (be32 decoded_string 13) buf layers = Inl struct_error"
    by (rule read_blocks_block_error)
  then show "read_blueprint b64decode decompress s = Inl struct_error"
    using assms(1-5) by (simp add: read_blueprint_at_turn)
next
  show "kind struct_error = TruncatedInputError" by simp
next
  assume "pos buf + 12 \<le> length decoded_string \<and> be32 decoded_string (pos buf) < 12"
  then show "read_blueprint b64decode decompress s =
              (case decompress (drop (pos buf + 12) decoded_string) of None \<Rightarrow> Inl zstd_Error
               | Some uncompressed_data \<Rightarrow>
                   if length uncompressed_data \<noteq> be32 decoded_string (pos buf + 8)
                   then Inl (ValueError_size_mismatch (be32 decoded_string (pos buf + 8))
                               (length decoded_string - (pos buf + 12)))
                   else (case frombuffer_reshape uncompressed_data
                                (be32 decoded_string 13, be32 decoded_string 9, 4) of
                           Inl e \<Rightarrow> Inl e
                         | Inr rgba \<Rightarrow>
                             Inr (map unat (take 3 decoded_string),
                                  layers(be32 decoded_string (pos buf + 4) \<mapsto> rgba))))"
    using assms(1-5) by (intro last_block_result) simp_all
qed

lemma b64_f:
  "b64decode_py (drop 4 ''VCB+AAEAAAAAAAAAAAAAAgAAAAEAAAAdAAAABwAAAAgotS/9IAhBAAD/AAD/AP8A/wAAAB0AAAA='')
   = Some [0, 1, 0, 0, 0, 0, 0, 0, 0, 0, 0, 0, 2, 0, 0, 0, 1, 0, 0, 0, 29, 0, 0, 0, 7, 0, 0, 0, 8,
           40, 181, 47, 253, 32, 8, 65, 0, 0, 255, 0, 0, 255, 0, 255, 0, 255, 0, 0, 0, 29, 0, 0, 0]"
  by code_simp

lemma b64_g:
  "b64decode_py (drop 4 ''VCB+AAEAAAAAAAAAAAAAAgAAAAEAAAAAAAAAAwAAAAgotS/9IAhBAAD/AAD/AP8A/w=='')
   = Some [0, 1, 0, 0, 0, 0, 0, 0, 0, 0, 0, 0, 2, 0, 0, 0, 1, 0, 0, 0, 0, 0, 0, 0, 3, 0, 0, 0, 8,
           40, 181, 47, 253, 32, 8, 65, 0, 0, 255, 0, 0, 255, 0, 255, 0, 255]"
  by code_simp

theorem truncated_block_header_witness:
  "read_blueprint b64decode_py zstd_raw
     ''VCB+AAEAAAAAAAAAAAAAAgAAAAEAAAAdAAAABwAAAAgotS/9IAhBAAD/AAD/AP8A/wAAAB0AAAA=''
     = Inl struct_error
   \<and> read_blueprint b64decode_py zstd_raw
     ''VCB+AAEAAAAAAAAAAAAAAgAAAAEAAAAAAAAAAwAAAAgotS/9IAhBAAD/AAD/AP8A/w==''
     = Inr ([0, 1, 0], [3 \<mapsto> \<lparr>shape = (1, 2, 4), flat = [255, 0, 0, 255, 0, 255, 0, 255]\<rparr>])"
proof -
  let ?s = "''VCB+AAEAAAAAAAAAAAAAAgAAAAEAAAAdAAAABwAAAAgotS/9IAhBAAD/AAD/AP8A/wAAAB0AAAA=''"
  let ?d = "[0, 1, 0, 0, 0, 0, 0, 0, 0, 0, 0, 0, 2, 0, 0, 0, 1, 0, 0, 0, 29, 0, 0, 0, 7, 0, 0, 0, 8,
           40, 181, 47, 253, 32, 8, 65, 0, 0, 255, 0, 0, 255, 0, 255, 0, 255, 0, 0, 0, 29, 0, 0,
           0 :: byte]"
  let ?a = "\<lparr>shape = (1, 2, 4), flat = [255, 0, 0, 255, 0, 255, 0, 255 :: byte]\<rparr>"
  have w: "be32 ?d 9 = 2" and h: "be32 ?d 13 = 1"
    by (simp_all add: be32_def)
  have rb: "read_block zstd_raw \<lparr>getvalue = ?d, pos = 17\<rparr> =
      Inr ((7, [255, 0, 0, 255, 0, 255, 0, 255]), \<lparr>getvalue = ?d, pos = 46\<rparr>)"
    using zstd_raw_a by (simp add: read_block_at be32_def)
  have fr: "frombuffer_reshape [255, 0, 0, 255, 0, 255, 0, 255] (1, 2, 4) = Inr ?a"
    by (simp add: frombuffer_reshape_def)
  have "loop_reaches zstd_raw ?d 2 1 (\<lparr>getvalue = ?d, pos = 17\<rparr>, Map.empty)
          ([] @ [(7, ?a)]) (\<lparr>getvalue = ?d, pos = 46\<rparr>, [7 \<mapsto> ?a])"
    using rb fr by (intro loop_reaches.turn [OF loop_reaches.start]) (simp add: tell_def)
  then have reach: "loop_reaches zstd_raw ?d (be32 ?d 9) (be32 ?d 13)
       (\<lparr>getvalue = ?d, pos = 17\<rparr>, Map.empty) [(7, ?a)]
       (\<lparr>getvalue = ?d, pos = 46\<rparr>, [7 \<mapsto> ?a])"
    using w h by simp
  have first: "read_blueprint b64decode_py zstd_raw ?s = Inl struct_error"
    using truncated_block_header [of ?s b64decode_py ?d zstd_raw "[(7, ?a)]"
        "\<lparr>getvalue = ?d, pos = 46\<rparr>" "[7 \<mapsto> ?a]", OF _ _ b64_f _ reach]
    by (simp add: tell_def)
  let ?s' = "''VCB+AAEAAAAAAAAAAAAAAgAAAAEAAAAAAAAAAwAAAAgotS/9IAhBAAD/AAD/AP8A/w==''"
  let ?d' = "[0, 1, 0, 0, 0, 0, 0, 0, 0, 0, 0, 0, 2, 0, 0, 0, 1, 0, 0, 0, 0, 0, 0, 0, 3, 0, 0, 0, 8,
           40, 181, 47, 253, 32, 8, 65, 0, 0, 255, 0, 0, 255, 0, 255, 0, 255 :: byte]"
  have fields: "be32 ?d' 9 = 2" "be32 ?d' 13 = 1" "be32 ?d' 17 = 0" "be32 ?d' 21 = 3"
      "be32 ?d' 25 = 8"
    by (simp_all add: be32_def)
  have second: "read_blueprint b64decode_py zstd_raw ?s' = Inr ([0, 1, 0], [3 \<mapsto> ?a])"
    using truncated_block_header [of ?s' b64decode_py ?d' zstd_raw "[]"
        "\<lparr>getvalue = ?d', pos = 17\<rparr>" Map.empty, OF _ _ b64_g _ loop_reaches.start]
      zstd_raw_a
    by (simp add: tell_def fields frombuffer_reshape_def)
  from first second show ?thesis by simp
qed

text \<open>
  The claim as stated fails for a block size below 12: the block below declares 5, and
  the string decodes without any error.
\<close>

lemma b64_h:
  "b64decode_py (drop 4 ''VCB+AAEAAAAAAAAAAAAAAgAAAAEAAAAFAAAABwAAAAgotS/9IAhBAAD/AAD/AP8A/w=='')
   = Some [0, 1, 0, 0, 0, 0, 0, 0, 0, 0, 0, 0, 2, 0, 0, 0, 1, 0, 0, 0, 5, 0, 0, 0, 7, 0, 0, 0, 8,
           40, 181, 47, 253, 32, 8, 65, 0, 0, 255, 0, 0, 255, 0, 255, 0, 255]"
  by code_simp

theorem block_size_below_12_counterexample:
  "b64decode_py (drop 4 ''VCB+AAEAAAAAAAAAAAAAAgAAAAEAAAAFAAAABwAAAAgotS/9IAhBAAD/AAD/AP8A/w=='')
     = Some [0, 1, 0, 0, 0, 0, 0, 0, 0, 0, 0, 0, 2, 0, 0, 0, 1, 0, 0, 0, 5, 0, 0, 0, 7, 0, 0, 0, 8,
             40, 181, 47, 253, 32, 8, 65, 0, 0, 255, 0, 0, 255, 0, 255, 0, 255]
   \<and> be32 [0, 1, 0, 0, 0, 0, 0, 0, 0, 0, 0, 0, 2, 0, 0, 0, 1, 0, 0, 0, 5, 0, 0, 0, 7, 0, 0, 0, 8,
             40, 181, 47, 253, 32, 8, 65, 0, 0, 255, 0, 0, 255, 0, 255, 0, 255] 17 = 5
   \<and> read_blueprint b64decode_py zstd_raw
       ''VCB+AAEAAAAAAAAAAAAAAgAAAAEAAAAFAAAABwAAAAgotS/9IAhBAAD/AAD/AP8A/w==''
     = Inr ([0, 1, 0], [7 \<mapsto> \<lparr>shape = (1, 2, 4), flat = [255, 0, 0, 255, 0, 255, 0, 255]\<rparr>])"
proof -
  let ?s = "''VCB+AAEAAAAAAAAAAAAAAgAAAAEAAAAFAAAABwAAAAgotS/9IAhBAAD/AAD/AP8A/w==''"
  let ?d = "[0, 1, 0, 0, 0, 0, 0, 0, 0, 0, 0, 0, 2, 0, 0, 0, 1, 0, 0, 0, 5, 0, 0, 0, 7, 0, 0, 0, 8,
             40, 181, 47, 253, 32, 8, 65, 0, 0, 255, 0, 0, 255, 0, 255, 0, 255 :: byte]"
  have fields: "be32 ?d 9 = 2" "be32 ?d 13 = 1" "be32 ?d 17 = 5" "be32 ?d 21 = 7"
      "be32 ?d 25 = 8"
    by (simp_all add: be32_def)
  have "read_blueprint b64decode_py zstd_raw ?s
     = Inr ([0, 1, 0], [7 \<mapsto> \<lparr>shape = (1, 2, 4), flat = [255, 0, 0, 255, 0, 255, 0, 255]\<rparr>])"
    using last_block_result [of ?s b64decode_py ?d zstd_raw "[]"
        "\<lparr>getvalue = ?d, pos = 17\<rparr>" Map.empty, OF _ _ b64_h _ loop_reaches.start]
      zstd_raw_a
    by (simp add: fields frombuffer_reshape_def)
  then show ?thesis using b64_h fields by simp
qed

text \<open>
  Claim C6, as amended. The three integers of a block are read and fewer than
  \<open>block_size - 12\<close> bytes remain. \<open>buf.read\<close> then returns the bytes that remain, without
  an error, and they are the payload: \<open>read_blueprint\<close> fails when the decompressor
  rejects them, when their decompressed length differs from the declared size or when
  the reshape fails, and returns the layers otherwise. It never fails with a
  \<open>TruncatedInputError\<close> there.
\<close>

theorem short_payload_read:
  assumes "40 \<le> length s" and "take 4 s = ''VCB+''"
    and "b64decode (drop 4 s) = Some decoded_string" and "17 \<le> length decoded_string"
    and "loop_reaches decompress decoded_string (be32 decoded_string 9) (be32 decoded_string 13)
           (\<lparr>getvalue = decoded_string, pos = 17\<rparr>, Map.empty) blocks (buf, layers)"
    and "pos buf + 12 \<le> length decoded_string"
    and "length decoded_string - (pos buf + 12) < be32 decoded_string (pos buf) - 12"
  shows "read_blueprint b64decode decompress s =
           (case decompress (drop (pos buf + 12) decoded_string) of None \<Rightarrow> Inl zstd_Error
            | Some uncompressed_data \<Rightarrow>
                if length uncompressed_data \<noteq> be32 decoded_string (pos buf + 8)
                then Inl (ValueError_size_mismatch (be32 decoded_string (pos buf + 8))
                            (length decoded_string - (pos buf + 12)))
                else (case frombuffer_reshape uncompressed_data
                             (be32 decoded_string 13, be32 decoded_string 9, 4) of
                        Inl e \<Rightarrow> Inl e
                      | Inr rgba \<Rightarrow>
                          Inr (map unat (take 3 decoded_string),
                               layers(be32 decoded_string (pos buf + 4) \<mapsto> rgba))))
       \<and> \<not> (\<exists>e. read_blueprint b64decode decompress s = Inl e \<and> kind e = TruncatedInputError)"
proof -
  have r: "read_blueprint b64decode decompress s =
           (case decompress (drop (pos buf + 12) decoded_string) of None \<Rightarrow> Inl zstd_Error
            | Some uncompressed_data \<Rightarrow>
                if length uncompressed_data \<noteq> be32 decoded_string (pos buf + 8)
                then Inl (ValueError_size_mismatch (be32 decoded_string (pos buf + 8))
                            (length decoded_string - (pos buf + 12)))
                else (case frombuffer_reshape uncompressed_data
                             (be32 decoded_string 13, be32 decoded_string 9, 4) of
                        Inl e \<Rightarrow> Inl e
                      | Inr rgba \<Rightarrow>
                          Inr (map unat (take 3 decoded_string),
                               layers(be32 decoded_string (pos buf + 4) \<mapsto> rgba))))"
    using assms by (intro last_block_result) simp_all
  have "kind e \<noteq> TruncatedInputError" if "read_blueprint b64decode decompress s = Inl e" for e
    using that frombuffer_reshape_Inl unfolding r
    by (fastforce split: option.splits if_splits sum.splits)
  with r show ?thesis by blast
qed

lemma b64_i:
  "b64decode_py (drop 4 ''VCB+AAEAAAAAAAAAAAAAAgAAAAEAAAAoAAAABwAAAAgotS/9IAhBAAD/AAD/AP8A/w=='')
   = Some [0, 1, 0, 0, 0, 0, 0, 0, 0, 0, 0, 0, 2, 0, 0, 0, 1, 0, 0, 0, 40, 0, 0, 0, 7, 0, 0, 0, 8,
           40, 181, 47, 253, 32, 8, 65, 0, 0, 255, 0, 0, 255, 0, 255, 0, 255]"
  by code_simp

theorem short_payload_read_witness:
  "read_blueprint b64decode_py zstd_raw
     ''VCB+AAEAAAAAAAAAAAAAAgAAAAEAAAAoAAAABwAAAAgotS/9IAhBAAD/AAD/AP8A/w==''
     = Inr ([0, 1, 0], [7 \<mapsto> \<lparr>shape = (1, 2, 4), flat = [255, 0, 0, 255, 0, 255, 0, 255]\<rparr>])"
proof -
  let ?s = "''VCB+AAEAAAAAAAAAAAAAAgAAAAEAAAAoAAAABwAAAAgotS/9IAhBAAD/AAD/AP8A/w==''"
  let ?d = "[0, 1, 0, 0, 0, 0, 0, 0, 0, 0, 0, 0, 2, 0, 0, 0, 1, 0, 0, 0, 40, 0, 0, 0, 7, 0, 0, 0, 8,
           40, 181, 47, 253, 32, 8, 65, 0, 0, 255, 0, 0, 255, 0, 255, 0, 255 :: byte]"
  have fields: "be32 ?d 9 = 2" "be32 ?d 13 = 1" "be32 ?d 17 = 40" "be32 ?d 21 = 7"
      "be32 ?d 25 = 8"
    by (simp_all add: be32_def)
  show ?thesis
    using short_payload_read [of ?s b64decode_py ?d zstd_raw "[]"
        "\<lparr>getvalue = ?d, pos = 17\<rparr>" Map.empty, OF _ _ b64_i _ loop_reaches.start]
      zstd_raw_a
    by (simp add: fields frombuffer_reshape_def)
qed

text \<open>
  The claim as stated fails: the block below declares a size of 1000, 17 bytes remain
  after its three integers, and the string decodes without any error.
\<close>

lemma b64_j:
  "b64decode_py (drop 4 ''VCB+AAEAAAAAAAAAAAAAAgAAAAEAAAPoAAAABwAAAAgotS/9IAhBAAD/AAD/AP8A/w=='')
   = Some [0, 1, 0, 0, 0, 0, 0, 0, 0, 0, 0, 0, 2, 0, 0, 0, 1, 0, 0, 3, 232, 0, 0, 0, 7, 0, 0, 0, 8,
           40, 181, 47, 253, 32, 8, 65, 0, 0, 255, 0, 0, 255, 0, 255, 0, 255]"
  by code_simp

theorem short_payload_counterexample:
  "b64decode_py (drop 4 ''VCB+AAEAAAAAAAAAAAAAAgAAAAEAAAPoAAAABwAAAAgotS/9IAhBAAD/AAD/AP8A/w=='')
     = Some [0, 1, 0, 0, 0, 0, 0, 0, 0, 0, 0, 0, 2, 0, 0, 0, 1, 0, 0, 3, 232, 0, 0, 0, 7, 0, 0, 0, 8,
             40, 181, 47, 253, 32, 8, 65, 0, 0, 255, 0, 0, 255, 0, 255, 0, 255]
   \<and> be32 [0, 1, 0, 0, 0, 0, 0, 0, 0, 0, 0, 0, 2, 0, 0, 0, 1, 0, 0, 3, 232, 0, 0, 0, 7, 0, 0, 0, 8,
             40, 181, 47, 253, 32, 8, 65, 0, 0, 255, 0, 0, 255, 0, 255, 0, 255] 17 = 1000
   \<and> length [0, 1, 0, 0, 0, 0, 0, 0, 0, 0, 0, 0, 2, 0, 0, 0, 1, 0, 0, 3, 232, 0, 0, 0, 7, 0, 0, 0, 8,
             40, 181, 47, 253, 32, 8, 65, 0, 0, 255, 0, 0, 255, 0, 255, 0, 255 :: byte] - 29 = 17
   \<and> read_blueprint b64decode_py zstd_raw
       ''VCB+AAEAAAAAAAAAAAAAAgAAAAEAAAPoAAAABwAAAAgotS/9IAhBAAD/AAD/AP8A/w==''
     = Inr ([0, 1, 0], [7 \<mapsto> \<lparr>shape = (1, 2, 4), flat = [255, 0, 0, 255, 0, 255, 0, 255]\<rparr>])"
proof -
  let ?s = "''VCB+AAEAAAAAAAAAAAAAAgAAAAEAAAPoAAAABwAAAAgotS/9IAhBAAD/AAD/AP8A/w==''"
  let ?d = "[0, 1, 0, 0, 0, 0, 0, 0, 0, 0, 0, 0, 2, 0, 0, 0, 1, 0, 0, 3, 232, 0, 0, 0, 7, 0, 0, 0, 8,
             40, 181, 47, 253, 32, 8, 65, 0, 0, 255, 0, 0, 255, 0, 255, 0, 255 :: byte]"
  have fields: "be32 ?d 9 = 2" "be32 ?d 13 = 1" "be32 ?d 17 = 1000" "be32 ?d 21 = 7"
      "be32 ?d 25 = 8"
    by (simp_all add: be32_def)
  have "read_blueprint b64decode_py zstd_raw ?s
     = Inr ([0, 1, 0], [7 \<mapsto> \<lparr>shape = (1, 2, 4), flat = [255, 0, 0, 255, 0, 255, 0, 255]\<rparr>])"
    using last_block_result [of ?s b64decode_py ?d zstd_raw "[]"
        "\<lparr>getvalue = ?d, pos = 17\<rparr>" Map.empty, OF _ _ b64_j _ loop_reaches.start]
      zstd_raw_a
    by (simp add: fields frombuffer_reshape_def)
  then show ?thesis using b64_j fields by simp
qed

subsection \<open>The raster of a layer\<close>

lemma tolist_nth:
  assumes "i < d0" and "j < d1" and "k < d2"
  shows "tolist \<lparr>shape = (d0, d1, d2), flat = buffer\<rparr> ! i ! j ! k
           = buffer ! ((i * d1 + j) * d2 + k)"
  using assms by (simp add: tolist_def item_def)

lemma tolist_lengths:
  "length (tolist \<lparr>shape = (d0, d1, d2), flat = buffer\<rparr>) = d0"
  "i < d0 \<Longrightarrow> length (tolist \<lparr>shape = (d0, d1, d2), flat = buffer\<rparr> ! i) = d1"
  "i < d0 \<Longrightarrow> j < d1 \<Longrightarrow> length (tolist \<lparr>shape = (d0, d1, d2), flat = buffer\<rparr> ! i ! j) = d2"
  by (simp_all add: tolist_def)

text \<open>
  Claim C7. The loop is at the head of a turn and \<open>_read_block\<close> returns the
  decompressed data of a block. When their length is not \<open>width * height * 4\<close>, with the
  width and height of the header, the reshape raises and \<open>read_blueprint\<close> fails with
  that error, a \<open>SizeMismatchError\<close>. When it is, the layer is the array of shape
  \<open>(height, width, 4)\<close> over these bytes in row-major order: \<open>height\<close> rows of \<open>width\<close>
  pixels of 4 bytes, the byte \<open>k\<close> of the pixel \<open>j\<close> of the row \<open>i\<close> being the byte
  \<open>(i * width + j) * 4 + k\<close> of the data; it is stored under the layer identifier and the
  loop goes on from there: the result of \<open>read_blueprint\<close> is the result of the loop run
  from the next position with the dictionary that holds this array under the
  identifier, and when the bytes end with this block it is the version and that
  dictionary.
\<close>

theorem raster_size_checked:
  assumes "40 \<le> length s" and "take 4 s = ''VCB+''"
    and "b64decode (drop 4 s) = Some decoded_string" and "17 \<le> length decoded_string"
    and "width = be32 decoded_string 9" and "height = be32 decoded_string 13"
    and "loop_reaches decompress decoded_string width height
           (\<lparr>getvalue = decoded_string, pos = 17\<rparr>, Map.empty) blocks (buf, layers)"
    and "tell buf < length decoded_string"
    and "read_block decompress buf = Inr ((layer_id, uncompressed_data), buf')"
    and "rgba = \<lparr>shape = (height, width, 4), flat = uncompressed_data\<rparr>"
  shows "(length uncompressed_data \<noteq> width * height * 4 \<longrightarrow>
            (\<exists>e. frombuffer_reshape uncompressed_data (height, width, 4) = Inl e
                 \<and> read_blueprint b64decode decompress s = Inl e
                 \<and> kind e = SizeMismatchError))
       \<and> (length uncompressed_data = width * height * 4 \<longrightarrow>
            frombuffer_reshape uncompressed_data (height, width, 4) = Inr rgba
            \<and> read_blocks decompress decoded_string width height buf layers
                = read_blocks decompress decoded_string width height buf'
                    (layers(layer_id \<mapsto> rgba))
            \<and> read_blueprint b64decode decompress s
                = (case read_blocks decompress decoded_string width height buf'
                          (layers(layer_id \<mapsto> rgba)) of
                     Inl e \<Rightarrow> Inl e
                   | Inr result \<Rightarrow> Inr (map unat (take 3 decoded_string), result))
            \<and> (\<not> tell buf' < length decoded_string \<longrightarrow>
                 read_blueprint b64decode decompress s
                   = Inr (map unat (take 3 decoded_string), layers(layer_id \<mapsto> rgba)))
            \<and> loop_reaches decompress decoded_string width height
                 (\<lparr>getvalue = decoded_string, pos = 17\<rparr>, Map.empty)
                 (blocks @ [(layer_id, rgba)]) (buf', layers(layer_id \<mapsto> rgba))
            \<and> length (tolist rgba) = height
            \<and> (\<forall>i<height. length (tolist rgba ! i) = width
                 \<and> (\<forall>j<width. length (tolist rgba ! i ! j) = 4
                      \<and> (\<forall>k<4. tolist rgba ! i ! j ! k
                                   = uncompressed_data ! ((i * width + j) * 4 + k)))))"
proof (intro conjI impI)
  assume ne: "length uncompressed_data \<noteq> width * height * 4"
  let ?e = "ValueError_reshape (length uncompressed_data) (height, width, 4)"
  have fr: "frombuffer_reshape uncompressed_data (height, width, 4) = Inl ?e"
    using ne by (auto simp: frombuffer_reshape_def)
  have "read_blocks decompress decoded_string width height buf layers = Inl ?e"
    by (rule read_blocks_reshape_error [OF assms(8,9) fr])
  then have "read_blueprint b64decode decompress s = Inl ?e"
    using assms(1-7) by (simp add: read_blueprint_at_turn)
  with fr show "\<exists>e. frombuffer_reshape uncompressed_data (height, width, 4) = Inl e
                 \<and> read_blueprint b64decode decompress s = Inl e
                 \<and> kind e = SizeMismatchError"
    by simp
next
  assume eq: "length uncompressed_data = width * height * 4"
  then show fr: "frombuffer_reshape uncompressed_data (height, width, 4) = Inr rgba"
    using assms(10) by (simp add: frombuffer_reshape_def mult.commute)
  show step: "read_blocks decompress decoded_string width height buf layers
                = read_blocks decompress decoded_string width height buf'
                    (layers(layer_id \<mapsto> rgba))"
    by (rule read_blocks_turn [OF assms(8,9) fr])
  then show whole: "read_blueprint b64decode decompress s
                = (case read_blocks decompress decoded_string width height buf'
                          (layers(layer_id \<mapsto> rgba)) of
                     Inl e \<Rightarrow> Inl e
                   | Inr result \<Rightarrow> Inr (map unat (take 3 decoded_string), result))"
    using assms(1-7) by (simp add: read_blueprint_at_turn)
  show "read_blueprint b64decode decompress s
                   = Inr (map unat (take 3 decoded_string), layers(layer_id \<mapsto> rgba))"
    if "\<not> tell buf' < length decoded_string"
    using that whole by (simp add: read_blocks_end)
  show "loop_reaches decompress decoded_string width height
                 (\<lparr>getvalue = decoded_string, pos = 17\<rparr>, Map.empty)
                 (blocks @ [(layer_id, rgba)]) (buf', layers(layer_id \<mapsto> rgba))"
    by (rule loop_reaches.turn [OF assms(7,8,9) fr])
  show "length (tolist rgba) = height"
    using assms(10) by (simp add: tolist_lengths)
  show "\<forall>i<height. length (tolist rgba ! i) = width
                 \<and> (\<forall>j<width. length (tolist rgba ! i ! j) = 4
                      \<and> (\<forall>k<4. tolist rgba ! i ! j ! k
                                   = uncompressed_data ! ((i * width + j) * 4 + k)))"
    using assms(10) by (simp add: tolist_lengths tolist_nth)
qed

lemma b64_k:
  "b64decode_py (drop 4 ''VCB+AAEAAAAAAAAAAAAAAgAAAAEAAAAZAAAABwAAAAQotS/9IAQhAAAJCQkJ'')
   = Some [0, 1, 0, 0, 0, 0, 0, 0, 0, 0, 0, 0, 2, 0, 0, 0, 1, 0, 0, 0, 25, 0, 0, 0, 7, 0, 0, 0, 4,
           40, 181, 47, 253, 32, 4, 33, 0, 0, 9, 9, 9, 9]"
  by code_simp

lemma zstd_raw_c: "zstd_raw [40, 181, 47, 253, 32, 4, 33, 0, 0, 9, 9, 9, 9] = Some [9, 9, 9, 9]"
  by (simp add: zstd_raw_def)

theorem raster_size_checked_witness:
  "read_blueprint b64decode_py zstd_raw
     ''VCB+AAEAAAAAAAAAAAAAAgAAAAEAAAAZAAAABwAAAAQotS/9IAQhAAAJCQkJ''
     = Inl (ValueError_reshape 4 (1, 2, 4))
   \<and> kind (ValueError_reshape 4 (1, 2, 4)) = SizeMismatchError
   \<and> frombuffer_reshape [255, 0, 0, 255, 0, 255, 0, 255] (1, 2, 4)
       = Inr \<lparr>shape = (1, 2, 4), flat = [255, 0, 0, 255, 0, 255, 0, 255]\<rparr>
   \<and> read_blueprint b64decode_py zstd_raw
       ''VCB+AAEAAAAAAAAAAAAAAgAAAAEAAAAdAAAABwAAAAgotS/9IAhBAAD/AAD/AP8A/w==''
       = Inr ([0, 1, 0], [7 \<mapsto> \<lparr>shape = (1, 2, 4), flat = [255, 0, 0, 255, 0, 255, 0, 255]\<rparr>])
   \<and> tolist \<lparr>shape = (1, 2, 4), flat = [255, 0, 0, 255, 0, 255, 0, 255]\<rparr> ! 0 ! 1 ! 1 = 255"
proof -
  let ?s = "''VCB+AAEAAAAAAAAAAAAAAgAAAAEAAAAZAAAABwAAAAQotS/9IAQhAAAJCQkJ''"
  let ?d = "[0, 1, 0, 0, 0, 0, 0, 0, 0, 0, 0, 0, 2, 0, 0, 0, 1, 0, 0, 0, 25, 0, 0, 0, 7, 0, 0, 0, 4,
           40, 181, 47, 253, 32, 4, 33, 0, 0, 9, 9, 9, 9 :: byte]"
  have fields: "2 = be32 ?d 9" "1 = be32 ?d 13"
    by (simp_all add: be32_def)
  have rb: "read_block zstd_raw \<lparr>getvalue = ?d, pos = 17\<rparr> =
      Inr ((7, [9, 9, 9, 9]), \<lparr>getvalue = ?d, pos = 42\<rparr>)"
    using zstd_raw_c by (simp add: read_block_at be32_def)
  have first: "read_blueprint b64decode_py zstd_raw ?s = Inl (ValueError_reshape 4 (1, 2, 4))
      \<and> kind (ValueError_reshape 4 (1, 2, 4)) = SizeMismatchError"
    using raster_size_checked [of ?s b64decode_py ?d 2 1 zstd_raw "[]"
        "\<lparr>getvalue = ?d, pos = 17\<rparr>" Map.empty 7 "[9, 9, 9, 9]" "\<lparr>getvalue = ?d, pos = 42\<rparr>"
        "\<lparr>shape = (1, 2, 4), flat = [9, 9, 9, 9]\<rparr>",
        OF _ _ b64_k _ fields loop_reaches.start _ rb]
    by (simp add: tell_def frombuffer_reshape_def)
  let ?s' = "''VCB+AAEAAAAAAAAAAAAAAgAAAAEAAAAdAAAABwAAAAgotS/9IAhBAAD/AAD/AP8A/w==''"
  let ?d' = "[0, 1, 0, 0, 0, 0, 0, 0, 0, 0, 0, 0, 2, 0, 0, 0, 1, 0, 0, 0, 29, 0, 0, 0, 7, 0, 0, 0, 8,
           40, 181, 47, 253, 32, 8, 65, 0, 0, 255, 0, 0, 255, 0, 255, 0, 255 :: byte]"
  let ?a = "\<lparr>shape = (1, 2, 4), flat = [255, 0, 0, 255, 0, 255, 0, 255 :: byte]\<rparr>"
  have fields': "2 = be32 ?d' 9" "1 = be32 ?d' 13"
    by (simp_all add: be32_def)
  have rb': "read_block zstd_raw \<lparr>getvalue = ?d', pos = 17\<rparr> =
      Inr ((7, [255, 0, 0, 255, 0, 255, 0, 255]), \<lparr>getvalue = ?d', pos = 46\<rparr>)"
    using zstd_raw_a by (simp add: read_block_at be32_def)
  have e1: "40 \<le> length ?s'" and e2: "take 4 ?s' = ''VCB+''" and e4: "17 \<le> length ?d'"
    and e8: "tell \<lparr>getvalue = ?d', pos = 17\<rparr> < length ?d'"
    and len: "length [255, 0, 0, 255, 0, 255, 0, 255 :: byte] = 2 * 1 * 4"
    by (simp_all add: tell_def)
  note inst = raster_size_checked [of ?s' b64decode_py ?d' 2 1 zstd_raw "[]"
        "\<lparr>getvalue = ?d', pos = 17\<rparr>" Map.empty 7 "[255, 0, 0, 255, 0, 255, 0, 255]"
        "\<lparr>getvalue = ?d', pos = 46\<rparr>" ?a,
        OF e1 e2 b64_d e4 fields' loop_reaches.start e8 rb' refl]
  note good = inst [THEN conjunct2, THEN mp, OF len]
  have second: "frombuffer_reshape [255, 0, 0, 255, 0, 255, 0, 255] (1, 2, 4) = Inr ?a"
    using good by (rule conjunct1)
  have third: "read_blueprint b64decode_py zstd_raw ?s' = Inr ([0, 1, 0], [7 \<mapsto> ?a])"
    using good [THEN conjunct2, THEN conjunct2, THEN conjunct2, THEN conjunct1]
    by (simp add: tell_def)
  have "\<forall>i<1. length (tolist ?a ! i) = 2
           \<and> (\<forall>j<2. length (tolist ?a ! i ! j) = 4
                \<and> (\<forall>k<4. tolist ?a ! i ! j ! k
                       = [255, 0, 0, 255, 0, 255, 0, 255] ! ((i * 2 + j) * 4 + k)))"
    using good by (elim conjE)
  then have "tolist ?a ! 0 ! 1 ! 1 = [255, 0, 0, 255, 0, 255, 0, 255] ! ((0 * 2 + 1) * 4 + 1)"
    by auto
  then have "tolist ?a ! 0 ! 1 ! 1 = 255" by simp
  with first second third show ?thesis by simp
qed

subsection \<open>Blocks with the same layer identifier\<close>

lemma map_of_rev_last:
  "k \<in> fst ` set blocks \<Longrightarrow>
   map_of (rev blocks) k = Some (snd (last (filter (\<lambda>b. fst b = k) blocks)))"
proof (induction blocks rule: rev_induct)
  case Nil
  then show ?case by simp
next
  case (snoc x xs)
  show ?case
  proof (cases "fst x = k")
    case True
    then show ?thesis by (cases x) simp
  next
    case False
    with snoc.prems have "k \<in> fst ` set xs" by auto
    with snoc.IH False show ?thesis by (cases x) simp
  qed
qed

text \<open>
  Claim C8. When \<open>read_blueprint\<close> returns, the dictionary it returns is the one the
  loop has built from the blocks of the stream, taken in order up to the end of the
  bytes: its keys are the layer identifiers of the blocks, and the array under a key is
  the array of the last block with that identifier. A dictionary has one entry for a
  key, so blocks that share an identifier leave one entry, that of the later block.
\<close>

theorem last_block_wins:
  assumes "read_blueprint b64decode decompress s = Inr (version, layers)"
  shows "\<exists>decoded_string blocks buf_end.
           b64decode (drop 4 s) = Some decoded_string
         \<and> loop_reaches decompress decoded_string
              (be32 decoded_string 9) (be32 decoded_string 13)
              (\<lparr>getvalue = decoded_string, pos = 17\<rparr>, Map.empty) blocks (buf_end, layers)
         \<and> \<not> tell buf_end < length decoded_string
         \<and> dom layers = fst ` set blocks
         \<and> (\<forall>k \<in> fst ` set blocks.
               layers k = Some (snd (last (filter (\<lambda>b. fst b = k) blocks))))"
proof -
  from assms have env: "40 \<le> length s" "take 4 s = ''VCB+''"
    by (auto simp: read_blueprint_def Let_def split: if_splits)
  with assms obtain decoded_string where d: "b64decode (drop 4 s) = Some decoded_string"
    by (auto simp: read_blueprint_def split: option.splits)
  have len: "17 \<le> length decoded_string"
  proof (rule ccontr)
    assume "\<not> 17 \<le> length decoded_string"
    then have "read_header (BytesIO_new decoded_string) = Inl struct_error"
      by (simp add: read_header_short BytesIO_new_def)
    with assms env d show False by (simp add: read_blueprint_def)
  qed
  have "read_blocks decompress decoded_string (be32 decoded_string 9) (be32 decoded_string 13)
          \<lparr>getvalue = decoded_string, pos = 17\<rparr> Map.empty = Inr layers"
    using assms read_blueprint_envelope [of s b64decode decoded_string decompress] env d len
    by (simp split: sum.splits)
  then obtain blocks buf_end where
    reach: "loop_reaches decompress decoded_string
              (be32 decoded_string 9) (be32 decoded_string 13)
              (\<lparr>getvalue = decoded_string, pos = 17\<rparr>, Map.empty) blocks (buf_end, layers)"
    and fin: "\<not> tell buf_end < length decoded_string"
    using read_blocks_Inr by blast
  have l: "layers = map_of (rev blocks)"
    using loop_reaches_layers [OF reach] by simp
  have "dom layers = fst ` set blocks"
    by (simp add: l dom_map_of_conv_image_fst)
  moreover have "\<forall>k \<in> fst ` set blocks.
               layers k = Some (snd (last (filter (\<lambda>b. fst b = k) blocks)))"
    using map_of_rev_last l by fastforce
  ultimately show ?thesis using d reach fin by blast
qed

lemma b64_l:
  "b64decode_py (drop 4 ''VCB+AAEAAAAAAAAAAAAAAgAAAAEAAAAdAAAABwAAAAgotS/9IAhBAAD/AAD/AP8A/wAAAB0AAAAHAAAACCi1L/0gCEEAAAECAwQFBgcI'')
   = Some [0, 1, 0, 0, 0, 0, 0, 0, 0, 0, 0, 0, 2, 0, 0, 0, 1, 0, 0, 0, 29, 0, 0, 0, 7, 0, 0, 0, 8,
           40, 181, 47, 253, 32, 8, 65, 0, 0, 255, 0, 0, 255, 0, 255, 0, 255, 0, 0, 0, 29, 0, 0,
           0, 7, 0, 0, 0, 8, 40, 181, 47, 253, 32, 8, 65, 0, 0, 1, 2, 3, 4, 5, 6, 7, 8]"
  by code_simp

lemma two_blocks_one_id:
  "read_blueprint b64decode_py zstd_raw
     ''VCB+AAEAAAAAAAAAAAAAAgAAAAEAAAAdAAAABwAAAAgotS/9IAhBAAD/AAD/AP8A/wAAAB0AAAAHAAAACCi1L/0gCEEAAAECAwQFBgcI''
   = Inr ([0, 1, 0], [7 \<mapsto> \<lparr>shape = (1, 2, 4), flat = [1, 2, 3, 4, 5, 6, 7, 8]\<rparr>])"
proof -
  let ?d = "[0, 1, 0, 0, 0, 0, 0, 0, 0, 0, 0, 0, 2, 0, 0, 0, 1, 0, 0, 0, 29, 0, 0, 0, 7, 0, 0, 0, 8,
           40, 181, 47, 253, 32, 8, 65, 0, 0, 255, 0, 0, 255, 0, 255, 0, 255, 0, 0, 0, 29, 0, 0,
           0, 7, 0, 0, 0, 8, 40, 181, 47, 253, 32, 8, 65, 0, 0, 1, 2, 3, 4, 5, 6, 7, 8 :: byte]"
  let ?a = "\<lparr>shape = (1, 2, 4), flat = [255, 0, 0, 255, 0, 255, 0, 255 :: byte]\<rparr>"
  let ?b = "\<lparr>shape = (1, 2, 4), flat = [1, 2, 3, 4, 5, 6, 7, 8 :: byte]\<rparr>"
  have fields: "be32 ?d 9 = 2" "be32 ?d 13 = 1"
    by (simp_all add: be32_def)
  have rb1: "read_block zstd_raw \<lparr>getvalue = ?d, pos = 17\<rparr> =
      Inr ((7, [255, 0, 0, 255, 0, 255, 0, 255]), \<lparr>getvalue = ?d, pos = 46\<rparr>)"
    using zstd_raw_a by (simp add: read_block_at be32_def)
  have rb2: "read_block zstd_raw \<lparr>getvalue = ?d, pos = 46\<rparr> =
      Inr ((7, [1, 2, 3, 4, 5, 6, 7, 8]), \<lparr>getvalue = ?d, pos = 75\<rparr>)"
    using zstd_raw_b by (simp add: read_block_at be32_def)
  have fr1: "frombuffer_reshape [255, 0, 0, 255, 0, 255, 0, 255] (1, 2, 4) = Inr ?a"
    and fr2: "frombuffer_reshape [1, 2, 3, 4, 5, 6, 7, 8] (1, 2, 4) = Inr ?b"
    by (simp_all add: frombuffer_reshape_def)
  have "read_blocks zstd_raw ?d 2 1 \<lparr>getvalue = ?d, pos = 17\<rparr> Map.empty =
        read_blocks zstd_raw ?d 2 1 \<lparr>getvalue = ?d, pos = 46\<rparr> [7 \<mapsto> ?a]"
    by (intro read_blocks_turn [OF _ rb1 fr1]) (simp add: tell_def)
  also have "\<dots> = read_blocks zstd_raw ?d 2 1 \<lparr>getvalue = ?d, pos = 75\<rparr> ([7 \<mapsto> ?a](7 \<mapsto> ?b))"
    by (intro read_blocks_turn [OF _ rb2 fr2]) (simp add: tell_def)
  also have "\<dots> = Inr [7 \<mapsto> ?b]"
    by (simp add: read_blocks_end tell_def)
  finally show ?thesis
    using b64_l fields by (simp add: read_blueprint_envelope)
qed

theorem last_block_wins_witness:
  "\<exists>decoded_string blocks buf_end.
     b64decode_py (drop 4 ''VCB+AAEAAAAAAAAAAAAAAgAAAAEAAAAdAAAABwAAAAgotS/9IAhBAAD/AAD/AP8A/wAAAB0AAAAHAAAACCi1L/0gCEEAAAECAwQFBgcI'')
       = Some decoded_string
     \<and> loop_reaches zstd_raw decoded_string (be32 decoded_string 9) (be32 decoded_string 13)
          (\<lparr>getvalue = decoded_string, pos = 17\<rparr>, Map.empty) blocks
          (buf_end, [7 \<mapsto> \<lparr>shape = (1, 2, 4), flat = [1, 2, 3, 4, 5, 6, 7, 8]\<rparr>])
     \<and> \<not> tell buf_end < length decoded_string
     \<and> dom [7 \<mapsto> \<lparr>shape = (1, 2, 4), flat = [1, 2, 3, 4, 5, 6, 7, 8 :: byte]\<rparr>] = fst ` set blocks
     \<and> (\<forall>k \<in> fst ` set blocks.
           [7 \<mapsto> \<lparr>shape = (1, 2, 4), flat = [1, 2, 3, 4, 5, 6, 7, 8]\<rparr>] k
             = Some (snd (last (filter (\<lambda>b. fst b = k) blocks))))"
  by (rule last_block_wins [OF two_blocks_one_id])

subsection \<open>The checksum\<close>

lemma read_same:
  assumes "same_rest a b"
  shows "fst (read n a) = fst (read n b)"
    and "same_rest (snd (read n a)) (snd (read n b))"
proof -
  from assms have p: "pos a = pos b"
    and d: "drop (pos a) (getvalue a) = drop (pos b) (getvalue b)"
    by (auto simp: same_rest_def)
  show out: "fst (read n a) = fst (read n b)"
    using p d by (simp add: read_def Let_def)
  have "drop (pos a + k) (getvalue a) = drop (pos b + k) (getvalue b)" for k
  proof -
    have "drop (pos a + k) (getvalue a) = drop k (drop (pos a) (getvalue a))"
      by (simp add: add.commute)
    also have "\<dots> = drop k (drop (pos b) (getvalue b))" by (simp only: d)
    also have "\<dots> = drop (pos b + k) (getvalue b)" by (simp add: add.commute)
    finally show ?thesis .
  qed
  then show "same_rest (snd (read n a)) (snd (read n b))"
    using p d by (simp add: same_rest_def read_def Let_def)
qed

lemma readint_same:
  assumes "same_rest a b"
  shows "(\<exists>e. readint a = Inl e \<and> readint b = Inl e)
       \<or> (\<exists>n a' b'. readint a = Inr (n, a') \<and> readint b = Inr (n, b') \<and> same_rest a' b')"
proof -
  obtain bs a' where ra: "read 4 a = (bs, a')" by (cases "read 4 a")
  obtain bs' b' where rb: "read 4 b = (bs', b')" by (cases "read 4 b")
  have "bs = bs'" and "same_rest a' b'"
    using read_same [OF assms, of 4] ra rb by simp_all
  then show ?thesis
    using ra rb by (cases "unpack_I bs") (simp_all add: readint_def)
qed

lemma read_block_same:
  assumes "same_rest a b"
  shows "(\<exists>e. read_block decompress a = Inl e \<and> read_block decompress b = Inl e)
       \<or> (\<exists>r a' b'. read_block decompress a = Inr (r, a') \<and> read_block decompress b = Inr (r, b')
             \<and> same_rest a' b')"
proof -
  consider (e1) e where "readint a = Inl e" "readint b = Inl e"
    | (r1) n1 a1 b1 where "readint a = Inr (n1, a1)" "readint b = Inr (n1, b1)" "same_rest a1 b1"
    using readint_same [OF assms] by blast
  then show ?thesis
  proof cases
    case e1
    then show ?thesis by (simp add: read_block_def)
  next
    case r1
    consider (e2) e where "readint a1 = Inl e" "readint b1 = Inl e"
      | (r2) n2 a2 b2 where "readint a1 = Inr (n2, a2)" "readint b1 = Inr (n2, b2)"
          "same_rest a2 b2"
      using readint_same [OF r1(3)] by blast
    then show ?thesis
    proof cases
      case e2
      with r1 show ?thesis by (simp add: read_block_def)
    next
      case r2
      consider (e3) e where "readint a2 = Inl e" "readint b2 = Inl e"
        | (r3) n3 a3 b3 where "readint a2 = Inr (n3, a3)" "readint b2 = Inr (n3, b3)"
            "same_rest a3 b3"
        using readint_same [OF r2(3)] by blast
      then show ?thesis
      proof cases
        case e3
        with r1 r2 show ?thesis by (simp add: read_block_def)
      next
        case r3
        obtain c a4 where ra: "read (int n1 - 12) a3 = (c, a4)"
          by (cases "read (int n1 - 12) a3")
        obtain c' b4 where rb: "read (int n1 - 12) b3 = (c', b4)"
          by (cases "read (int n1 - 12) b3")
        have "c = c'" and "same_rest a4 b4"
          using read_same [OF r3(3), of "int n1 - 12"] ra rb by simp_all
        then show ?thesis
          using r1 r2 r3 ra rb
          by (cases "decompress c") (simp_all add: read_block_def)
      qed
    qed
  qed
qed

lemma read_blocks_same:
  assumes "length decoded_string = length decoded_string'" and "same_rest buf b"
  shows "read_blocks decompress decoded_string width height buf layers =
         read_blocks decompress decoded_string' width height b layers"
  using assms
proof (induction decompress decoded_string width height buf layers arbitrary: b
       rule: read_blocks.induct)
  case (1 decompress decoded_string width height buf layers)
  have t: "tell b = tell buf"
    using "1.prems"(2) by (simp add: same_rest_def tell_def)
  show ?case
  proof (cases "tell buf < length decoded_string")
    case False
    then show ?thesis using t "1.prems"(1) by (simp add: read_blocks_end)
  next
    case True
    then have True': "tell b < length decoded_string'" using t "1.prems"(1) by simp
    consider (err) e where "read_block decompress buf = Inl e" "read_block decompress b = Inl e"
      | (ok) r buf' b' where "read_block decompress buf = Inr (r, buf')"
          "read_block decompress b = Inr (r, b')" "same_rest buf' b'"
      using read_block_same [OF "1.prems"(2)] by blast
    then show ?thesis
    proof cases
      case err
      then show ?thesis using True True' by (simp add: read_blocks_block_error)
    next
      case ok
      obtain layer_id uncompressed_data where r: "r = (layer_id, uncompressed_data)"
        by (cases r)
      show ?thesis
      proof (cases "frombuffer_reshape uncompressed_data (height, width, 4)")
        case (Inl e)
        then show ?thesis
          using True True' ok r by (simp add: read_blocks_reshape_error)
      next
        case (Inr rgba)
        have "read_blocks decompress decoded_string width height buf'
                (layers(layer_id \<mapsto> rgba)) =
              read_blocks decompress decoded_string' width height b'
                (layers(layer_id \<mapsto> rgba))"
          using "1.IH" [OF True ok(1) [unfolded r] refl refl Inr "1.prems"(1) ok(3)]
          by (simp add: fun_upd_def)
        then show ?thesis
          using read_blocks_turn [OF True ok(1) [unfolded r] Inr]
                read_blocks_turn [OF True' ok(2) [unfolded r] Inr]
          by simp
      qed
    qed
  qed
qed

lemma be32_drop:
  "p + k + 4 \<le> length g \<Longrightarrow> be32 (drop p g) k = be32 g (p + k)"
  by (simp add: be32_def add.assoc)

text \<open>
  Claim C9. Two blueprint strings pass the checks of the envelope and decode to byte
  strings of the same length that agree on the bytes 0 to 2 and from byte 9 on, so they
  differ in the checksum bytes 3 to 8 at most. Then \<open>read_blueprint\<close> gives the same result
  on both: the same error, or the same version and the same layers.
\<close>

theorem checksum_ignored:
  assumes "40 \<le> length s1" and "take 4 s1 = ''VCB+''" and "b64decode (drop 4 s1) = Some b1"
    and "40 \<le> length s2" and "take 4 s2 = ''VCB+''" and "b64decode (drop 4 s2) = Some b2"
    and "length b1 = length b2" and "take 3 b1 = take 3 b2" and "drop 9 b1 = drop 9 b2"
  shows "read_blueprint b64decode decompress s1 = read_blueprint b64decode decompress s2"
proof (cases "length b1 < 17")
  case True
  then have "read_header (BytesIO_new b1) = Inl struct_error"
    and "read_header (BytesIO_new b2) = Inl struct_error"
    using assms(7) by (simp_all add: read_header_short BytesIO_new_def)
  then show ?thesis
    using assms(1-6) by (simp add: read_blueprint_def)
next
  case False
  then have l1: "17 \<le> length b1" and l2: "17 \<le> length b2"
    using assms(7) by simp_all
  have w: "be32 b1 9 = be32 b2 9"
    using be32_drop [of 9 0 b1] be32_drop [of 9 0 b2] l1 l2 assms(9) by simp
  have h: "be32 b1 13 = be32 b2 13"
    using be32_drop [of 9 4 b1] be32_drop [of 9 4 b2] l1 l2 assms(9) by simp
  have "drop 8 (drop 9 b1) = drop 8 (drop 9 b2)"
    by (simp only: assms(9))
  then have "drop 17 b1 = drop 17 b2" by simp
  then have "same_rest \<lparr>getvalue = b1, pos = 17\<rparr> \<lparr>getvalue = b2, pos = 17\<rparr>"
    by (simp add: same_rest_def)
  then have "read_blocks decompress b1 (be32 b1 9) (be32 b1 13)
                \<lparr>getvalue = b1, pos = 17\<rparr> Map.empty =
             read_blocks decompress b2 (be32 b1 9) (be32 b1 13)
                \<lparr>getvalue = b2, pos = 17\<rparr> Map.empty"
    by (rule read_blocks_same [OF assms(7)])
  then show ?thesis
    using assms(1-6,8) l1 l2 w h by (simp add: read_blueprint_envelope split: sum.splits)
qed

lemma b64_m:
  "b64decode_py (drop 4 ''VCB+AAEAAQIDBAUGAAAAAgAAAAEAAAAdAAAABwAAAAgotS/9IAhBAAD/AAD/AP8A/w=='')
   = Some [0, 1, 0, 1, 2, 3, 4, 5, 6, 0, 0, 0, 2, 0, 0, 0, 1, 0, 0, 0, 29, 0, 0, 0, 7, 0, 0, 0, 8,
           40, 181, 47, 253, 32, 8, 65, 0, 0, 255, 0, 0, 255, 0, 255, 0, 255]"
  by code_simp

theorem checksum_ignored_witness:
  "read_blueprint b64decode_py zstd_raw
     ''VCB+AAEAAAAAAAAAAAAAAgAAAAEAAAAdAAAABwAAAAgotS/9IAhBAAD/AAD/AP8A/w==''
   = read_blueprint b64decode_py zstd_raw
     ''VCB+AAEAAQIDBAUGAAAAAgAAAAEAAAAdAAAABwAAAAgotS/9IAhBAAD/AAD/AP8A/w==''"
  using checksum_ignored
    [of "''VCB+AAEAAAAAAAAAAAAAAgAAAAEAAAAdAAAABwAAAAgotS/9IAhBAAD/AAD/AP8A/w==''" b64decode_py
        "[0, 1, 0, 0, 0, 0, 0, 0, 0, 0, 0, 0, 2, 0, 0, 0, 1, 0, 0, 0, 29, 0, 0, 0, 7, 0, 0, 0, 8,
           40, 181, 47, 253, 32, 8, 65, 0, 0, 255, 0, 0, 255, 0, 255, 0, 255]"
        "''VCB+AAEAAQIDBAUGAAAAAgAAAAEAAAAdAAAABwAAAAgotS/9IAhBAAD/AAD/AP8A/w==''"
        "[0, 1, 0, 1, 2, 3, 4, 5, 6, 0, 0, 0, 2, 0, 0, 0, 1, 0, 0, 0, 29, 0, 0, 0, 7, 0, 0, 0, 8,
           40, 181, 47, 253, 32, 8, 65, 0, 0, 255, 0, 0, 255, 0, 255, 0, 255]" zstd_raw]
    b64_d b64_m
  by simp

end
